theory Spec2Isabelle
  imports Complex_Main
begin

section \<open>JavaScript values used by the coverage calculator\<close>

text \<open>
  The calculator (\<^verbatim>\<open>CoverageCalculator\<close>, source file \<^verbatim>\<open>src/unnamed/part_000\<close>) computes
  with JavaScript numbers. Finite numbers are modelled as reals; the one non-finite value
  the code can produce, \<^verbatim>\<open>NaN\<close>, is a constructor of its own. Rounding of IEEE doubles is
  not modelled: the keys of the eight neighbouring cells, which the code computes by a
  floating-point addition, are the exact sums here. Strings are lists of 8-bit characters.
\<close>

datatype jsnum = Num real | NaN

fun js_add :: "jsnum \<Rightarrow> jsnum \<Rightarrow> jsnum" where
  "js_add (Num x) (Num y) = Num (x + y)"
| "js_add _ _ = NaN"

fun js_mul :: "jsnum \<Rightarrow> jsnum \<Rightarrow> jsnum" where
  "js_mul (Num x) (Num y) = Num (x * y)"
| "js_mul _ _ = NaN"

text \<open>
  Division: \<^verbatim>\<open>0 / 0\<close> is \<^verbatim>\<open>NaN\<close>. A non-zero number divided by zero (an infinity in
  JavaScript) does not occur in the calculator: its two divisions are guarded by
  \<^verbatim>\<open>totalPoints > 0\<close>, or divide the sum of an empty list by its length.
\<close>

fun js_div :: "jsnum \<Rightarrow> jsnum \<Rightarrow> jsnum" where
  "js_div (Num x) (Num y) = (if y = 0 then NaN else Num (x / y))"
| "js_div _ _ = NaN"

text \<open>Comparisons with \<^verbatim>\<open>NaN\<close> are false.\<close>

fun js_lt :: "jsnum \<Rightarrow> jsnum \<Rightarrow> bool" where
  "js_lt (Num x) (Num y) = (x < y)"
| "js_lt _ _ = False"

fun js_le :: "jsnum \<Rightarrow> jsnum \<Rightarrow> bool" where
  "js_le (Num x) (Num y) = (x \<le> y)"
| "js_le _ _ = False"

text \<open>\<^verbatim>\<open>xs.reduce((a, b) => a + b, 0)\<close>\<close>

definition js_sum :: "jsnum list \<Rightarrow> jsnum" where
  "js_sum xs = foldl js_add (Num 0) xs"

text \<open>
  A plain object with string keys is an association list in property order:
  reading a key is \<open>map_of\<close>, assigning keeps the position of an existing key and appends
  a new one. (Integer-like keys would be enumerated first by JavaScript; nothing below
  depends on the enumeration order.)
\<close>

fun obj_set :: "string \<Rightarrow> 'v \<Rightarrow> (string \<times> 'v) list \<Rightarrow> (string \<times> 'v) list" where
  "obj_set k v [] = [(k, v)]"
| "obj_set k v ((k', v') # ps) = (if k = k' then (k, v) # ps else (k', v') # obj_set k v ps)"

definition obj_keys :: "(string \<times> 'v) list \<Rightarrow> string list" where
  "obj_keys obj = map fst obj"

definition obj_values :: "(string \<times> 'v) list \<Rightarrow> 'v list" where
  "obj_values obj = map snd obj"

text \<open>
  Both object literals of the calculator inherit from \<^verbatim>\<open>Object.prototype\<close>, so reading a
  key that is not an own property finds an inherited member when the key names one.
\<close>

definition Object_prototype_members :: "string list" where
  "Object_prototype_members =
     [''constructor'', ''hasOwnProperty'', ''isPrototypeOf'', ''propertyIsEnumerable'',
      ''toLocaleString'', ''toString'', ''valueOf'', ''__proto__'',
      ''__defineGetter__'', ''__defineSetter__'', ''__lookupGetter__'', ''__lookupSetter__'']"

section \<open>Data model (\<^verbatim>\<open>src/src/types/coverage.ts\<close>)\<close>

text \<open>
  A \<^verbatim>\<open>google.maps.LatLng\<close> is an object: \<open>oid\<close> is its identity, \<open>lat\<close> and \<open>lng\<close> are
  what its methods \<^verbatim>\<open>lat()\<close> and \<^verbatim>\<open>lng()\<close> return.
\<close>

record LatLng =
  oid :: nat
  lat :: real
  lng :: real

text \<open>
  \<^verbatim>\<open>CoveragePoint\<close>: the fields of \<^verbatim>\<open>properties\<close> and \<^verbatim>\<open>geometry.coordinates\<close>, which is
  \<^verbatim>\<open>[lng, lat]\<close>. An optional field that is absent is \<open>None\<close>.
\<close>

record CoveragePoint =
  operator :: string
  city_name :: string
  status :: string
  country :: "string option"
  phone_type :: "string option"
  technology :: "string option"
  coordinates :: "real \<times> real"

record FilterState =
  countries :: "string list"
  phoneTypes :: "string list"
  operators :: "string list"
  statuses :: "string list"

record RouteSegment =
  path :: "LatLng list"
  coverage :: jsnum
  coverageDetails :: "(string \<times> jsnum) list"

record DistributionEntry =
  entry_coverage :: jsnum
  color :: string
  nearbyPoints :: jsnum

record CoverageStats =
  totalSegments :: nat
  averageCoverage :: jsnum
  coverageDistribution :: "DistributionEntry list"

text \<open>
  A reference to a coverage point is the point together with its position in
  \<^verbatim>\<open>this.points\<close>: two points with equal contents at different positions are different
  objects, as they are for the \<^verbatim>\<open>Set\<close> of line 105.
\<close>

type_synonym point_ref = "nat \<times> CoveragePoint"

record CoverageCalculator =
  points :: "CoveragePoint list"
  spatialIndex :: "string \<rightharpoonup> point_ref list"
  cache :: "string \<rightharpoonup> RouteSegment"

section \<open>Constants (lines 4-12)\<close>

definition COVERAGE_WEIGHTS :: "(string \<times> real) list" where
  "COVERAGE_WEIGHTS = [(''5G'', 1.0), (''4G'', 0.7), (''3G'', 0.4), (''other'', 0.1)]"

definition DEFAULT_SEARCH_RADIUS :: real where
  "DEFAULT_SEARCH_RADIUS = 0.01"

definition SEGMENT_LENGTH :: nat where
  "SEGMENT_LENGTH = 5"

section \<open>Spatial index (lines 26-61)\<close>

text \<open>
  Template strings render numbers with \<^verbatim>\<open>Number::toString\<close>, a parameter \<open>num_str\<close> of
  every function that builds a string.
\<close>

definition gridSize :: real where
  "gridSize = 0.1"

definition getGridKey :: "(jsnum \<Rightarrow> string) \<Rightarrow> real \<Rightarrow> real \<Rightarrow> string" where
  "getGridKey num_str lat\<^sub>0 lng\<^sub>0 =
     (let latKey = real_of_int \<lfloor>lat\<^sub>0 / gridSize\<rfloor> * gridSize;
          lngKey = real_of_int \<lfloor>lng\<^sub>0 / gridSize\<rfloor> * gridSize
      in num_str (Num latKey) @ '','' @ num_str (Num lngKey))"

definition index_add :: "(jsnum \<Rightarrow> string) \<Rightarrow> (string \<rightharpoonup> point_ref list) \<Rightarrow> point_ref
    \<Rightarrow> (string \<rightharpoonup> point_ref list)" where
  "index_add num_str idx r =
     (let (lng\<^sub>0, lat\<^sub>0) = coordinates (snd r);
          gridKey = getGridKey num_str lat\<^sub>0 lng\<^sub>0
      in case idx gridKey of
           None \<Rightarrow> idx(gridKey \<mapsto> [r])
         | Some cell \<Rightarrow> idx(gridKey \<mapsto> cell @ [r]))"

definition buildSpatialIndex :: "(jsnum \<Rightarrow> string) \<Rightarrow> CoveragePoint list
    \<Rightarrow> (string \<rightharpoonup> point_ref list)" where
  "buildSpatialIndex num_str pts = foldl (index_add num_str) Map.empty (enumerate 0 pts)"

definition new_CoverageCalculator :: "(jsnum \<Rightarrow> string) \<Rightarrow> CoveragePoint list
    \<Rightarrow> CoverageCalculator" where
  "new_CoverageCalculator num_str pts =
     \<lparr>points = pts, spatialIndex = buildSpatialIndex num_str pts, cache = Map.empty\<rparr>"

text \<open>
  The radius argument is not used by the source either. The sums are exact here; in
  doubles some of the eight neighbouring sums differ from the key under which the
  neighbouring cell was filed. The centre key, \<open>latKey + 0 * gridSize\<close>, is the build
  key in doubles too.
\<close>

definition getNearbyGridKeys :: "(jsnum \<Rightarrow> string) \<Rightarrow> real \<Rightarrow> real \<Rightarrow> real \<Rightarrow> string list" where
  "getNearbyGridKeys num_str lat\<^sub>0 lng\<^sub>0 radius =
     (let latKey = real_of_int \<lfloor>lat\<^sub>0 / gridSize\<rfloor> * gridSize;
          lngKey = real_of_int \<lfloor>lng\<^sub>0 / gridSize\<rfloor> * gridSize
      in concat (map (\<lambda>i. map (\<lambda>j.
           num_str (Num (latKey + i * gridSize)) @ '','' @ num_str (Num (lngKey + j * gridSize)))
           [-1, 0, 1]) [-1, 0, 1]))"

section \<open>Distance (lines 63-77)\<close>

definition toRad :: "real \<Rightarrow> real" where
  "toRad degrees = degrees * (pi / 180)"

text \<open>\<^verbatim>\<open>Math.atan2(y, x)\<close> on finite arguments.\<close>

definition atan2 :: "real \<Rightarrow> real \<Rightarrow> real" where
  "atan2 y x =
     (if 0 < x then arctan (y / x)
      else if x < 0 then (if 0 \<le> y then arctan (y / x) + pi else arctan (y / x) - pi)
      else if 0 < y then pi / 2
      else if y < 0 then - (pi / 2)
      else 0)"

text \<open>
  \<^verbatim>\<open>Math.sqrt\<close> of a negative number is \<^verbatim>\<open>NaN\<close>, and so is everything computed from it:
  the distance is \<^verbatim>\<open>NaN\<close> when \<open>a\<close> leaves \<open>[0, 1]\<close>.
\<close>

definition haversineDistance :: "real \<Rightarrow> real \<Rightarrow> real \<Rightarrow> real \<Rightarrow> jsnum" where
  "haversineDistance lat1 lon1 lat2 lon2 =
     (let R = 6371;
          dLat = toRad (lat2 - lat1);
          dLon = toRad (lon2 - lon1);
          a = sin (dLat / 2) * sin (dLat / 2) +
              cos (toRad lat1) * cos (toRad lat2) * sin (dLon / 2) * sin (dLon / 2)
      in if a < 0 \<or> 1 < a then NaN
         else Num (R * (2 * atan2 (sqrt a) (sqrt (1 - a)))))"

section \<open>Cache fingerprint (lines 79-83)\<close>

text \<open>\<^verbatim>\<open>xs.join(sep)\<close>\<close>

fun join :: "string \<Rightarrow> string list \<Rightarrow> string" where
  "join sep [] = []"
| "join sep [x] = x"
| "join sep (x # y # ys) = x @ sep @ join sep (y # ys)"

text \<open>
  \<^verbatim>\<open>JSON.stringify\<close> of a string: the quoted string, with the escapes of
  \<^verbatim>\<open>QuoteJSONString\<close>. Characters from \<open>0x20\<close> on, other than the quote and the
  backslash, are copied.
\<close>

definition hex_digit :: "nat \<Rightarrow> char" where
  "hex_digit n = ''0123456789abcdef'' ! (n mod 16)"

definition json_escape :: "char \<Rightarrow> string" where
  "json_escape c =
     (if c = CHR 0x08 then [CHR 0x5C, CHR ''b'']
      else if c = CHR 0x09 then [CHR 0x5C, CHR ''t'']
      else if c = CHR 0x0A then [CHR 0x5C, CHR ''n'']
      else if c = CHR 0x0C then [CHR 0x5C, CHR ''f'']
      else if c = CHR 0x0D then [CHR 0x5C, CHR ''r'']
      else if c = CHR 0x22 then [CHR 0x5C, CHR 0x22]
      else if c = CHR 0x5C then [CHR 0x5C, CHR 0x5C]
      else if (of_char c :: nat) < 0x20 then
        [CHR 0x5C, CHR ''u'', CHR ''0'', CHR ''0'',
         hex_digit ((of_char c :: nat) div 16), hex_digit (of_char c :: nat)]
      else [c])"

definition json_string :: "string \<Rightarrow> string" where
  "json_string s = CHR 0x22 # concat (map json_escape s) @ [CHR 0x22]"

definition json_array :: "string list \<Rightarrow> string" where
  "json_array xs = ''['' @ join '','' (map json_string xs) @ '']''"

text \<open>
  \<^verbatim>\<open>JSON.stringify(filters)\<close>: the four properties in the order in which the object
  literals of the caller create them (\<^verbatim>\<open>src/unnamed/part_003\<close>, lines 448-453), which
  is the order of the fields of the record. A filter object whose properties were created
  in another order is not a value of the record.
\<close>

definition json_member :: "string \<Rightarrow> string list \<Rightarrow> string" where
  "json_member name xs = json_string name @ '':'' @ json_array xs"

definition JSON_stringify :: "FilterState \<Rightarrow> string" where
  "JSON_stringify filters =
     ''{'' @ json_member ''countries'' (countries filters) @ '','' @
     json_member ''phoneTypes'' (phoneTypes filters) @ '','' @
     json_member ''operators'' (operators filters) @ '','' @
     json_member ''statuses'' (statuses filters) @ ''}''"

definition getCacheKey :: "(jsnum \<Rightarrow> string) \<Rightarrow> LatLng list \<Rightarrow> FilterState \<Rightarrow> string" where
  "getCacheKey num_str segment filters =
     (let segmentKey = join ''|'' (map (\<lambda>p. num_str (Num (lat p)) @ '','' @ num_str (Num (lng p))) segment);
          filterKey = JSON_stringify filters
      in segmentKey @ ''|'' @ filterKey)"

section \<open>Segment coverage (lines 85-160)\<close>

text \<open>\<^verbatim>\<open>nearbyPoints.add(p)\<close> on a \<^verbatim>\<open>Set\<close>, which keeps insertion order.\<close>

definition set_add :: "'a list \<Rightarrow> 'a \<Rightarrow> 'a list" where
  "set_add s x = (if x \<in> set s then s else s @ [x])"

text \<open>Lines 105-112: the candidates, from the 3x3 cells around every point of the segment.\<close>

definition addCell :: "(string \<rightharpoonup> point_ref list) \<Rightarrow> point_ref list \<Rightarrow> string \<Rightarrow> point_ref list" where
  "addCell idx nearby key =
     (let pointsInCell = (case idx key of Some cell \<Rightarrow> cell | None \<Rightarrow> [])
      in foldl set_add nearby pointsInCell)"

definition addGridCells :: "(jsnum \<Rightarrow> string) \<Rightarrow> (string \<rightharpoonup> point_ref list) \<Rightarrow> real
    \<Rightarrow> point_ref list \<Rightarrow> LatLng \<Rightarrow> point_ref list" where
  "addGridCells num_str idx searchRadius nearby p =
     (let gridKeys = getNearbyGridKeys num_str (lat p) (lng p) searchRadius
      in foldl (addCell idx) nearby gridKeys)"

definition gatherNearbyPoints :: "(jsnum \<Rightarrow> string) \<Rightarrow> (string \<rightharpoonup> point_ref list)
    \<Rightarrow> LatLng list \<Rightarrow> real \<Rightarrow> point_ref list" where
  "gatherNearbyPoints num_str idx segment searchRadius =
     foldl (addGridCells num_str idx searchRadius) [] segment"

text \<open>An optional string is truthy when it is present and not empty.\<close>

definition truthy :: "string option \<Rightarrow> bool" where
  "truthy v = (case v of None \<Rightarrow> False | Some s \<Rightarrow> s \<noteq> [])"

definition array_includes :: "string list \<Rightarrow> string option \<Rightarrow> bool" where
  "array_includes xs v = (case v of None \<Rightarrow> False | Some s \<Rightarrow> s \<in> set xs)"

text \<open>Lines 117-130: the four early returns; \<open>True\<close> when none of them is taken.\<close>

definition passesFilters :: "FilterState \<Rightarrow> CoveragePoint \<Rightarrow> bool" where
  "passesFilters filters point =
     (if countries filters \<noteq> [] \<and> truthy (country point) \<and>
         \<not> array_includes (countries filters) (country point) then False
      else if phoneTypes filters \<noteq> [] \<and> truthy (phone_type point) \<and>
         \<not> array_includes (phoneTypes filters) (phone_type point) then False
      else if operators filters \<noteq> [] \<and> \<not> array_includes (operators filters) (Some (operator point))
         then False
      else if statuses filters \<noteq> [] \<and> \<not> array_includes (statuses filters) (Some (status point))
         then False
      else True)"

text \<open>Lines 133-141.\<close>

definition isNearby :: "LatLng list \<Rightarrow> real \<Rightarrow> CoveragePoint \<Rightarrow> bool" where
  "isNearby segment searchRadius point =
     (let (lng\<^sub>0, lat\<^sub>0) = coordinates point
      in list_ex (\<lambda>p. js_le (haversineDistance lat\<^sub>0 lng\<^sub>0 (lat p) (lng p)) (Num searchRadius))
           segment)"

text \<open>
  Line 145, \<^verbatim>\<open>coverageDetails[status]++\<close>: an own key is incremented. For any other key
  the old value (\<^verbatim>\<open>undefined\<close>, or an inherited function) converts to \<^verbatim>\<open>NaN\<close>, and the
  assignment creates the key with that value; assigning a number to \<^verbatim>\<open>__proto__\<close>
  changes nothing.
\<close>

definition increment :: "string \<Rightarrow> (string \<times> jsnum) list \<Rightarrow> (string \<times> jsnum) list" where
  "increment key details =
     (case map_of details key of
        Some v \<Rightarrow> obj_set key (js_add v (Num 1)) details
      | None \<Rightarrow> if key = ''__proto__'' then details else obj_set key NaN details)"

text \<open>
  Line 147, \<^verbatim>\<open>COVERAGE_WEIGHTS[status] || COVERAGE_WEIGHTS.other\<close>: an own key gives its
  (non-zero) weight and a key found nowhere gives the weight of \<^verbatim>\<open>other\<close>. A key that
  names a member of \<^verbatim>\<open>Object.prototype\<close> gives that member, which is truthy and not a
  number: adding it turns the running score into a string, which the division of line 151
  converts to \<^verbatim>\<open>NaN\<close>. That case is the value \<open>NaN\<close> here.
\<close>

definition other_weight :: real where
  "other_weight = (case map_of COVERAGE_WEIGHTS ''other'' of Some w \<Rightarrow> w | None \<Rightarrow> 0)"

definition statusWeight :: "string \<Rightarrow> jsnum" where
  "statusWeight key =
     (case map_of COVERAGE_WEIGHTS key of
        Some w \<Rightarrow> if w \<noteq> 0 then Num w else Num other_weight
      | None \<Rightarrow> if key \<in> set Object_prototype_members then NaN else Num other_weight)"

text \<open>
  Lines 115-149, the body of the loop over the candidates, on the three variables
  \<^verbatim>\<open>coverageDetails\<close>, \<^verbatim>\<open>totalPoints\<close> and \<^verbatim>\<open>coverageScore\<close>.
\<close>

type_synonym tally = "(string \<times> jsnum) list \<times> nat \<times> jsnum"

definition processPoint :: "FilterState \<Rightarrow> LatLng list \<Rightarrow> real \<Rightarrow> tally \<Rightarrow> point_ref \<Rightarrow> tally" where
  "processPoint filters segment searchRadius acc r =
     (let point = snd r; (details, totalPoints, coverageScore) = acc
      in if \<not> passesFilters filters point then acc
         else if isNearby segment searchRadius point then
           (increment (status point) details, totalPoints + 1,
            js_add coverageScore (statusWeight (status point)))
         else acc)"

definition initialDetails :: "(string \<times> jsnum) list" where
  "initialDetails = [(''5G'', Num 0), (''4G'', Num 0), (''3G'', Num 0), (''other'', Num 0)]"

definition tallyPoints :: "FilterState \<Rightarrow> LatLng list \<Rightarrow> real \<Rightarrow> point_ref list \<Rightarrow> tally" where
  "tallyPoints filters segment searchRadius nearby =
     foldl (processPoint filters segment searchRadius) (initialDetails, 0, Num 0) nearby"

text \<open>Lines 95-156: what a call computes when the cache has no entry.\<close>

definition computeSegment :: "(jsnum \<Rightarrow> string) \<Rightarrow> (string \<rightharpoonup> point_ref list) \<Rightarrow> LatLng list
    \<Rightarrow> FilterState \<Rightarrow> real \<Rightarrow> RouteSegment" where
  "computeSegment num_str idx segment filters searchRadius =
     (let nearby = gatherNearbyPoints num_str idx segment searchRadius;
          (details, totalPoints, coverageScore) = tallyPoints filters segment searchRadius nearby;
          normalizedCoverage =
            (if totalPoints > 0 then js_div coverageScore (Num (real totalPoints)) else Num 0)
      in \<lparr>path = segment, coverage = normalizedCoverage, coverageDetails = details\<rparr>)"

definition calculateSegmentCoverage :: "(jsnum \<Rightarrow> string) \<Rightarrow> CoverageCalculator \<Rightarrow> LatLng list
    \<Rightarrow> FilterState \<Rightarrow> real \<Rightarrow> RouteSegment \<times> CoverageCalculator" where
  "calculateSegmentCoverage num_str this segment filters searchRadius =
     (let cacheKey = getCacheKey num_str segment filters
      in case cache this cacheKey of
           Some cached \<Rightarrow> (cached, this)
         | None \<Rightarrow>
             (let result = computeSegment num_str (spatialIndex this) segment filters searchRadius
              in (result, this\<lparr>cache := (cache this)(cacheKey \<mapsto> result)\<rparr>)))"

section \<open>Route analysis (lines 162-216)\<close>

fun js_min :: "jsnum \<Rightarrow> jsnum \<Rightarrow> jsnum" where
  "js_min (Num x) (Num y) = Num (min x y)"
| "js_min _ _ = NaN"

fun js_max :: "jsnum \<Rightarrow> jsnum \<Rightarrow> jsnum" where
  "js_max (Num x) (Num y) = Num (max x y)"
| "js_max _ _ = NaN"

text \<open>The warning of line 211 is written to the console and is not part of the result.\<close>

definition getCoverageColor :: "(jsnum \<Rightarrow> string) \<Rightarrow> jsnum \<Rightarrow> string" where
  "getCoverageColor num_str cov =
     (let cov' = (if js_lt cov (Num 0) \<or> js_lt (Num 1) cov
                  then js_max (Num 0) (js_min (Num 1) cov) else cov);
          hue = js_mul cov' (Num 120)
      in ''hsl('' @ num_str hue @ '', 100%, 50%)'')"

text \<open>Line 190: \<^verbatim>\<open>Object.values(result.coverageDetails).some(count => count > 0)\<close>\<close>

definition hasCoverage :: "RouteSegment \<Rightarrow> bool" where
  "hasCoverage result = list_ex (\<lambda>count. js_lt (Num 0) count) (obj_values (coverageDetails result))"

text \<open>
  Lines 181-193, the loop over \<open>i\<close>, on the list \<^verbatim>\<open>segments\<close> and the calculator.
  \<^verbatim>\<open>path.slice(i, i + SEGMENT_LENGTH)\<close> is \<open>take SEGMENT_LENGTH (drop i path)\<close>. The
  local \<^verbatim>\<open>statusCount\<close> is written and never read, and is left out.
\<close>

function splitLoop :: "(jsnum \<Rightarrow> string) \<Rightarrow> LatLng list \<Rightarrow> FilterState \<Rightarrow> nat
    \<Rightarrow> RouteSegment list \<Rightarrow> CoverageCalculator \<Rightarrow> RouteSegment list \<times> CoverageCalculator" where
  "splitLoop num_str route filters i segs this =
     (if i < length route then
        (let segment = take SEGMENT_LENGTH (drop i route);
             (result, this') =
               calculateSegmentCoverage num_str this segment filters DEFAULT_SEARCH_RADIUS;
             segs' = (if hasCoverage result then segs @ [result] else segs)
         in splitLoop num_str route filters (i + SEGMENT_LENGTH) segs' this')
      else (segs, this))"
  by pat_completeness auto
termination
  by (relation "measure (\<lambda>(num_str, route, filters, i, segs, this). length route - i)")
     (auto simp: SEGMENT_LENGTH_def)

record Analysis =
  segments :: "RouteSegment list"
  stats :: CoverageStats

definition routeStats :: "(jsnum \<Rightarrow> string) \<Rightarrow> RouteSegment list \<Rightarrow> CoverageStats" where
  "routeStats num_str segs =
     \<lparr>totalSegments = length segs,
      averageCoverage = js_div (foldl (\<lambda>acc seg. js_add acc (coverage seg)) (Num 0) segs)
                               (Num (real (length segs))),
      coverageDistribution = map (\<lambda>seg.
         \<lparr>entry_coverage = coverage seg,
          color = getCoverageColor num_str (coverage seg),
          nearbyPoints = js_sum (obj_values (coverageDetails seg))\<rparr>) segs\<rparr>"

definition analyzeRouteCoverage :: "(jsnum \<Rightarrow> string) \<Rightarrow> CoverageCalculator \<Rightarrow> LatLng list
    \<Rightarrow> FilterState \<Rightarrow> Analysis \<times> CoverageCalculator" where
  "analyzeRouteCoverage num_str this route filters =
     (let (segs, this') = splitLoop num_str route filters 0 [] this
      in (\<lparr>segments = segs, stats = routeStats num_str segs\<rparr>, this'))"

section \<open>Notions used to state the properties\<close>

text \<open>The cell key under which \<^verbatim>\<open>buildSpatialIndex\<close> files a point (lines 29-30).\<close>

definition cell_key :: "(jsnum \<Rightarrow> string) \<Rightarrow> point_ref \<Rightarrow> string" where
  "cell_key num_str r = getGridKey num_str (snd (coordinates (snd r))) (fst (coordinates (snd r)))"

text \<open>\<^verbatim>\<open>this.spatialIndex.get(key) || []\<close>\<close>

definition cell_points :: "(string \<rightharpoonup> point_ref list) \<Rightarrow> string \<Rightarrow> point_ref list" where
  "cell_points idx key = (case idx key of Some cell \<Rightarrow> cell | None \<Rightarrow> [])"

text \<open>
  The filter as the specification words it: on each of the four dimensions the
  allow-list is empty or the attribute of the point is a member of it, an absent attribute
  being a member of no list.
\<close>

definition spec_passes :: "FilterState \<Rightarrow> CoveragePoint \<Rightarrow> bool" where
  "spec_passes filters point =
     ((countries filters = [] \<or> array_includes (countries filters) (country point)) \<and>
      (phoneTypes filters = [] \<or> array_includes (phoneTypes filters) (phone_type point)) \<and>
      (operators filters = [] \<or> operator point \<in> set (operators filters)) \<and>
      (statuses filters = [] \<or> status point \<in> set (statuses filters)))"

text \<open>
  A candidate qualifies when it passes the filter and the distance test; \<open>passing\<close> are
  the qualifying candidates of a segment, and \<open>totalPoints\<close> is the value of the variable
  of that name at line 151.
\<close>

definition qualifies :: "FilterState \<Rightarrow> LatLng list \<Rightarrow> real \<Rightarrow> point_ref \<Rightarrow> bool" where
  "qualifies filters segment searchRadius r =
     (passesFilters filters (snd r) \<and> isNearby segment searchRadius (snd r))"

definition passing :: "(jsnum \<Rightarrow> string) \<Rightarrow> (string \<rightharpoonup> point_ref list) \<Rightarrow> LatLng list
    \<Rightarrow> FilterState \<Rightarrow> real \<Rightarrow> point_ref list" where
  "passing num_str idx segment filters searchRadius =
     filter (qualifies filters segment searchRadius)
       (gatherNearbyPoints num_str idx segment searchRadius)"

definition totalPoints :: "(jsnum \<Rightarrow> string) \<Rightarrow> (string \<rightharpoonup> point_ref list) \<Rightarrow> LatLng list
    \<Rightarrow> FilterState \<Rightarrow> real \<Rightarrow> nat" where
  "totalPoints num_str idx segment filters searchRadius =
     fst (snd (tallyPoints filters segment searchRadius
       (gatherNearbyPoints num_str idx segment searchRadius)))"

text \<open>
  The weight table as the specification words it: every status other than 5G, 4G and 3G
  has the weight of \<^verbatim>\<open>other\<close>.
\<close>

definition spec_weight :: "string \<Rightarrow> real" where
  "spec_weight s =
     (if s = ''5G'' then 1.0 else if s = ''4G'' then 0.7 else if s = ''3G'' then 0.4 else 0.1)"

text \<open>A status is plain when it does not name a member of \<^verbatim>\<open>Object.prototype\<close>.\<close>

definition plainStatus :: "string \<Rightarrow> bool" where
  "plainStatus s = (s \<notin> set Object_prototype_members)"

text \<open>Widening one of the four allow-lists of a filter by one value.\<close>

datatype dimension = Countries | PhoneTypes | Operators | Statuses

fun allowList :: "dimension \<Rightarrow> FilterState \<Rightarrow> string list" where
  "allowList Countries f = countries f"
| "allowList PhoneTypes f = phoneTypes f"
| "allowList Operators f = operators f"
| "allowList Statuses f = statuses f"

fun widen :: "dimension \<Rightarrow> string \<Rightarrow> FilterState \<Rightarrow> FilterState" where
  "widen Countries v f = f\<lparr>countries := countries f @ [v]\<rparr>"
| "widen PhoneTypes v f = f\<lparr>phoneTypes := phoneTypes f @ [v]\<rparr>"
| "widen Operators v f = f\<lparr>operators := operators f @ [v]\<rparr>"
| "widen Statuses v f = f\<lparr>statuses := statuses f @ [v]\<rparr>"

text \<open>
  The calculators that can exist: a new one, and one on which \<^verbatim>\<open>calculateSegmentCoverage\<close>
  has been called (by \<^verbatim>\<open>analyzeRouteCoverage\<close> or directly). \<open>D\<close> is the set of numbers
  that occur as coordinates of route points.
\<close>

definition coords_in :: "real set \<Rightarrow> LatLng list \<Rightarrow> bool" where
  "coords_in D segment = (\<forall>p \<in> set segment. lat p \<in> D \<and> lng p \<in> D)"

inductive reachable :: "(jsnum \<Rightarrow> string) \<Rightarrow> real set \<Rightarrow> CoverageCalculator \<Rightarrow> bool"
  for num_str :: "jsnum \<Rightarrow> string" and D :: "real set" where
  fresh: "reachable num_str D (new_CoverageCalculator num_str pts)"
| call: "reachable num_str D this \<Longrightarrow> coords_in D segment \<Longrightarrow>
         reachable num_str D (snd (calculateSegmentCoverage num_str this segment filters r))"

text \<open>
  What the fingerprint needs of \<^verbatim>\<open>Number::toString\<close>: different numbers have different
  renderings, and no rendering contains a comma, a bar or an opening brace (the renderings
  of JavaScript consist of digits, a sign, a point and an exponent).
\<close>

definition renders :: "(jsnum \<Rightarrow> string) \<Rightarrow> real set \<Rightarrow> bool" where
  "renders num_str D =
     (inj_on (\<lambda>x. num_str (Num x)) D \<and>
      (\<forall>x \<in> D. CHR '','' \<notin> set (num_str (Num x)) \<and> CHR ''|'' \<notin> set (num_str (Num x)) \<and>
                 CHR ''{'' \<notin> set (num_str (Num x))))"

text \<open>Line 80: the rendering of one point of the segment.\<close>

definition point_key :: "(jsnum \<Rightarrow> string) \<Rightarrow> LatLng \<Rightarrow> string" where
  "point_key num_str p = num_str (Num (lat p)) @ '','' @ num_str (Num (lng p))"

text \<open>Every cached route segment was computed for the arguments of its fingerprint.\<close>

definition cache_sound :: "(jsnum \<Rightarrow> string) \<Rightarrow> real set \<Rightarrow> CoverageCalculator \<Rightarrow> bool" where
  "cache_sound num_str D this =
     (\<forall>k s. cache this k = Some s \<longrightarrow>
        (\<exists>seg f r. coords_in D seg \<and> k = getCacheKey num_str seg f \<and>
           s = computeSegment num_str (spatialIndex this) seg f r))"

text \<open>The counts of a breakdown are never negative numbers.\<close>

definition counts_ok :: "(string \<times> jsnum) list \<Rightarrow> bool" where
  "counts_ok details =
     (\<forall>c \<in> set (obj_values details). case c of Num x \<Rightarrow> 0 \<le> x | NaN \<Rightarrow> True)"

definition cache_ok :: "CoverageCalculator \<Rightarrow> bool" where
  "cache_ok this = (\<forall>k s. cache this k = Some s \<longrightarrow> counts_ok (coverageDetails s))"

text \<open>
  A breakdown has a non-zero count when one of its values is not the number 0.
\<close>

definition hasNonZeroCount :: "RouteSegment \<Rightarrow> bool" where
  "hasNonZeroCount s = list_ex (\<lambda>count. count \<noteq> Num 0) (obj_values (coverageDetails s))"

text \<open>
  The results of \<^verbatim>\<open>calculateSegmentCoverage\<close> for the successive chunks of a route, kept
  or not, in route order, from the chunk that starts at index \<open>i\<close>.
\<close>

function chunkResults :: "(jsnum \<Rightarrow> string) \<Rightarrow> LatLng list \<Rightarrow> FilterState \<Rightarrow> nat
    \<Rightarrow> CoverageCalculator \<Rightarrow> RouteSegment list" where
  "chunkResults num_str route filters i this =
     (if i < length route then
        (let (result, this') = calculateSegmentCoverage num_str this
               (take SEGMENT_LENGTH (drop i route)) filters DEFAULT_SEARCH_RADIUS
         in result # chunkResults num_str route filters (i + SEGMENT_LENGTH) this')
      else [])"
  by pat_completeness auto
termination
  by (relation "measure (\<lambda>(num_str, route, filters, i, this). length route - i)")
     (auto simp: SEGMENT_LENGTH_def)

section \<open>A number rendering and sample data\<close>

text \<open>
  \<open>decimal_str\<close> renders a number the way \<^verbatim>\<open>Number::toString\<close> renders the numbers
  with at most four decimals (\<^verbatim>\<open>43.6532\<close>, \<^verbatim>\<open>-79.4\<close>, \<^verbatim>\<open>0.85\<close>, \<^verbatim>\<open>120\<close>); it cuts
  other numbers after the fourth decimal. It is the rendering of the examples, whose
  coordinates, cell keys and hues all have at most four decimals.
\<close>

definition digit :: "nat \<Rightarrow> char" where
  "digit d = ''0123456789'' ! (d mod 10)"

fun nat_str :: "nat \<Rightarrow> string" where
  "nat_str n = (if n < 10 then [digit n] else nat_str (n div 10) @ [digit n])"

text \<open>The decimals of \<open>m / 10000\<close> for \<open>m < 10000\<close>, without trailing zeros.\<close>

definition fraction_str :: "nat \<Rightarrow> string" where
  "fraction_str m =
     map digit (rev (dropWhile (\<lambda>d. d = 0)
       (rev [m div 1000 mod 10, m div 100 mod 10, m div 10 mod 10, m mod 10])))"

definition decimal_str :: "jsnum \<Rightarrow> string" where
  "decimal_str x =
     (case x of
        NaN \<Rightarrow> ''NaN''
      | Num r \<Rightarrow>
          (let n = \<lfloor>r * 10000\<rfloor>; m = nat \<bar>n\<bar>; fraction = fraction_str (m mod 10000)
           in (if n < 0 then ''-'' else []) @ nat_str (m div 10000) @
              (if fraction = [] then [] else ''.'' @ fraction)))"

text \<open>The point and the route position of the scenarios of the specification.\<close>

definition toronto5G :: CoveragePoint where
  "toronto5G =
     \<lparr>operator = ''Test Operator'', city_name = ''Test City'', status = ''5G'',
      country = None, phone_type = None, technology = None,
      coordinates = (-79.3832, 43.6532)\<rparr>"

definition here :: LatLng where
  "here = \<lparr>oid = 1, lat = 43.6532, lng = -79.3832\<rparr>"

definition here_again :: LatLng where
  "here_again = \<lparr>oid = 2, lat = 43.6532, lng = -79.3832\<rparr>"

definition noFilters :: FilterState where
  "noFilters = \<lparr>countries = [], phoneTypes = [], operators = [], statuses = []\<rparr>"

definition onlyCanada :: FilterState where
  "onlyCanada = \<lparr>countries = [''CA''], phoneTypes = [], operators = [], statuses = []\<rparr>"

definition onlyRogers :: FilterState where
  "onlyRogers = \<lparr>countries = [], phoneTypes = [], operators = [''Rogers''], statuses = []\<rparr>"

text \<open>The same observation five thousandths of a degree of latitude further north.\<close>

definition halfKmNorth :: CoveragePoint where
  "halfKmNorth = toronto5G\<lparr>coordinates := (-79.3832, 43.6582)\<rparr>"

text \<open>
  The same observation with the status of the test data of the repository
  (\<^verbatim>\<open>src/src/components/CoverageMap.test.tsx\<close>, line 22), and with a status that names a
  member of \<^verbatim>\<open>Object.prototype\<close>.
\<close>

definition testStatus :: CoveragePoint where
  "testStatus = toronto5G\<lparr>status := ''Test Status''\<rparr>"

definition constructorStatus :: CoveragePoint where
  "constructorStatus = toronto5G\<lparr>status := ''constructor''\<rparr>"

text \<open>A 4G observation at the same place, and a route of twelve points.\<close>

definition toronto4G :: CoveragePoint where
  "toronto4G = toronto5G\<lparr>status := ''4G''\<rparr>"

definition route12 :: "LatLng list" where
  "route12 = map (\<lambda>n. \<lparr>oid = n, lat = real n, lng = 0\<rparr>) [0..<12]"

section \<open>Evaluation of the examples\<close>

lemmas calc_defs =
  calculateSegmentCoverage_def new_CoverageCalculator_def computeSegment_def tallyPoints_def
  processPoint_def passesFilters_def isNearby_def haversineDistance_def toRad_def atan2_def
  increment_def statusWeight_def initialDetails_def COVERAGE_WEIGHTS_def other_weight_def
  Object_prototype_members_def DEFAULT_SEARCH_RADIUS_def gatherNearbyPoints_def
  addGridCells_def addCell_def getNearbyGridKeys_def buildSpatialIndex_def index_add_def
  getGridKey_def gridSize_def decimal_str_def fraction_str_def digit_def set_add_def truthy_def array_includes_def

lemmas key_defs =
  getCacheKey_def JSON_stringify_def json_member_def json_array_def json_string_def
  json_escape_def

lemmas sample_defs = toronto5G_def here_def here_again_def noFilters_def onlyCanada_def
  onlyRogers_def halfKmNorth_def testStatus_def constructorStatus_def toronto4G_def

lemma toronto_candidates:
  "gatherNearbyPoints decimal_str (spatialIndex (new_CoverageCalculator decimal_str [toronto5G]))
     [here] DEFAULT_SEARCH_RADIUS = [(0, toronto5G)]"
  by (simp add: calc_defs sample_defs Let_def)

lemma toronto_nearby: "isNearby [here] DEFAULT_SEARCH_RADIUS toronto5G"
  by (simp add: calc_defs sample_defs)

section \<open>The filter\<close>

text \<open>
  C3, as the claim states it, fails: a point without a country passes a filter that
  allows only one country, because the test of line 117 is skipped when the attribute is
  absent.
\<close>

theorem absent_country_passes_counterexample:
  "country toronto5G = None \<and> countries onlyCanada \<noteq> [] \<and>
   passesFilters onlyCanada toronto5G \<and> \<not> spec_passes onlyCanada toronto5G"
  by (simp add: passesFilters_def spec_passes_def sample_defs truthy_def array_includes_def)

lemma passesFilters_char:
  "passesFilters filters point \<longleftrightarrow>
     (countries filters = [] \<or> \<not> truthy (country point) \<or>
        array_includes (countries filters) (country point)) \<and>
     (phoneTypes filters = [] \<or> \<not> truthy (phone_type point) \<or>
        array_includes (phoneTypes filters) (phone_type point)) \<and>
     (operators filters = [] \<or> operator point \<in> set (operators filters)) \<and>
     (statuses filters = [] \<or> status point \<in> set (statuses filters))"
  by (auto simp: passesFilters_def array_includes_def)

text \<open>
  C3, amended: a point passes the filter if and only if, on each of the four dimensions,
  the allow-list is empty or the attribute of the point is a member of it, or, for the two
  optional attributes country and phone type, the attribute is absent or empty.
\<close>

theorem passesFilters_iff:
  "passesFilters filters point \<longleftrightarrow>
     (countries filters = [] \<or> \<not> truthy (country point) \<or>
        array_includes (countries filters) (country point)) \<and>
     (phoneTypes filters = [] \<or> \<not> truthy (phone_type point) \<or>
        array_includes (phoneTypes filters) (phone_type point)) \<and>
     (operators filters = [] \<or> operator point \<in> set (operators filters)) \<and>
     (statuses filters = [] \<or> status point \<in> set (statuses filters))"
  by (rule passesFilters_char)

theorem passesFilters_iff_witness:
  "truthy (country (toronto5G\<lparr>country := Some ''CA''\<rparr>)) \<and>
   passesFilters onlyCanada (toronto5G\<lparr>country := Some ''CA''\<rparr>) \<and>
   truthy (country (toronto5G\<lparr>country := Some ''US''\<rparr>)) \<and>
   \<not> passesFilters onlyCanada (toronto5G\<lparr>country := Some ''US''\<rparr>)"
  using passesFilters_iff [of onlyCanada "toronto5G\<lparr>country := Some ''CA''\<rparr>"]
    passesFilters_iff [of onlyCanada "toronto5G\<lparr>country := Some ''US''\<rparr>"]
  by (simp add: sample_defs truthy_def array_includes_def)

section \<open>The spatial index\<close>

lemma index_add_keeps:
  assumes "idx k = Some cell" "r \<in> set cell"
  shows "\<exists>cell'. index_add num_str idx r' k = Some cell' \<and> r \<in> set cell'"
  using assms by (auto simp: index_add_def Let_def split: prod.splits option.splits)

lemma index_add_puts:
  "\<exists>cell'. index_add num_str idx r (cell_key num_str r) = Some cell' \<and> r \<in> set cell'"
  by (auto simp: index_add_def cell_key_def Let_def split: prod.splits option.splits)

lemma foldl_index_add_keeps:
  assumes "idx k = Some cell" "r \<in> set cell"
  shows "\<exists>cell'. foldl (index_add num_str) idx rs k = Some cell' \<and> r \<in> set cell'"
  using assms
proof (induction rs arbitrary: idx cell)
  case Nil
  then show ?case by simp
next
  case (Cons r' rs)
  from index_add_keeps [of idx k cell r num_str r'] Cons.prems obtain c where
    "index_add num_str idx r' k = Some c" "r \<in> set c" by blast
  with Cons.IH [of "index_add num_str idx r'" c] show ?case by simp
qed

lemma foldl_index_add_puts:
  assumes "r \<in> set rs"
  shows "\<exists>cell'. foldl (index_add num_str) idx rs (cell_key num_str r) = Some cell'
           \<and> r \<in> set cell'"
  using assms
proof (induction rs arbitrary: idx)
  case Nil
  then show ?case by simp
next
  case (Cons r' rs)
  show ?case
  proof (cases "r = r'")
    case True
    from index_add_puts [of num_str idx r] obtain c where
      "index_add num_str idx r (cell_key num_str r) = Some c" "r \<in> set c" by blast
    with foldl_index_add_keeps [of "index_add num_str idx r" "cell_key num_str r" c r num_str rs]
      True
    show ?thesis by simp
  next
    case False
    with Cons.prems have "r \<in> set rs" by simp
    from Cons.IH [OF this] show ?thesis by simp
  qed
qed

lemma buildSpatialIndex_bucket:
  assumes "i < length pts"
  shows "\<exists>cell. buildSpatialIndex num_str pts (cell_key num_str (i, pts ! i)) = Some cell
           \<and> (i, pts ! i) \<in> set cell"
proof -
  from assms have "(i, pts ! i) \<in> set (enumerate 0 pts)"
    by (simp add: in_set_enumerate_eq)
  from foldl_index_add_puts [OF this] show ?thesis
    by (simp add: buildSpatialIndex_def)
qed

lemma foldl_set_add: "set (foldl set_add s xs) = set s \<union> set xs"
  by (induction xs arbitrary: s) (auto simp: set_add_def)

lemma addCell_set: "set (addCell idx s key) = set s \<union> set (cell_points idx key)"
  by (simp add: addCell_def cell_points_def foldl_set_add)

lemma foldl_addCell_set:
  "set (foldl (addCell idx) s keys) = set s \<union> (\<Union>key \<in> set keys. set (cell_points idx key))"
  by (induction keys arbitrary: s) (auto simp: addCell_set)

lemma addGridCells_set:
  "set (addGridCells num_str idx r s p)
     = set s \<union> (\<Union>key \<in> set (getNearbyGridKeys num_str (lat p) (lng p) r).
                    set (cell_points idx key))"
  by (simp add: addGridCells_def foldl_addCell_set)

lemma foldl_addGridCells_set:
  "set (foldl (addGridCells num_str idx r) s seg)
     = set s \<union> (\<Union>p \<in> set seg. \<Union>key \<in> set (getNearbyGridKeys num_str (lat p) (lng p) r).
                    set (cell_points idx key))"
  by (induction seg arbitrary: s) (auto simp: addGridCells_set)

lemma gatherNearbyPoints_set:
  "set (gatherNearbyPoints num_str idx seg r)
     = (\<Union>p \<in> set seg. \<Union>key \<in> set (getNearbyGridKeys num_str (lat p) (lng p) r).
          set (cell_points idx key))"
  by (simp add: gatherNearbyPoints_def foldl_addGridCells_set)

lemma centre_key:
  "getNearbyGridKeys num_str la lo r ! 4 = getGridKey num_str la lo"
  by (simp add: getNearbyGridKeys_def getGridKey_def Let_def)

lemma centre_key_in:
  "getGridKey num_str la lo \<in> set (getNearbyGridKeys num_str la lo r)"
  by (simp add: getNearbyGridKeys_def getGridKey_def Let_def)

text \<open>
  C6: for every point of the indexed point set, the key computed at query time for the
  centre cell (\<open>i = 0\<close>, \<open>j = 0\<close>, the fifth of the nine keys) of a query at the point's own
  coordinates is the key under which the point was filed when the index was built, the
  bucket of that key holds the point, and the candidates gathered for a segment that
  contains those coordinates include the point.
\<close>

theorem query_finds_own_point:
  assumes "i < length pts" and "q \<in> set seg"
    and "lat q = snd (coordinates (pts ! i))" and "lng q = fst (coordinates (pts ! i))"
  shows "getNearbyGridKeys num_str (lat q) (lng q) r ! 4 = cell_key num_str (i, pts ! i)
       \<and> (\<exists>cell. spatialIndex (new_CoverageCalculator num_str pts)
                     (cell_key num_str (i, pts ! i)) = Some cell
                 \<and> (i, pts ! i) \<in> set cell)
       \<and> (i, pts ! i) \<in> set (gatherNearbyPoints num_str
             (spatialIndex (new_CoverageCalculator num_str pts)) seg r)"
proof -
  from buildSpatialIndex_bucket [OF assms(1)] obtain cell where
    c: "buildSpatialIndex num_str pts (cell_key num_str (i, pts ! i)) = Some cell"
       "(i, pts ! i) \<in> set cell" by blast
  have k: "cell_key num_str (i, pts ! i) = getGridKey num_str (lat q) (lng q)"
    by (simp add: cell_key_def assms(3,4))
  have "(i, pts ! i) \<in> set (cell_points (buildSpatialIndex num_str pts)
          (getGridKey num_str (lat q) (lng q)))"
    using c k by (simp add: cell_points_def)
  with assms(2) centre_key_in [of num_str "lat q" "lng q" r]
  have "(i, pts ! i) \<in> set (gatherNearbyPoints num_str (buildSpatialIndex num_str pts) seg r)"
    unfolding gatherNearbyPoints_set by blast
  with c show ?thesis
    by (simp add: centre_key k new_CoverageCalculator_def)
qed

theorem query_finds_own_point_witness:
  "(0::nat) < length [toronto5G] \<and> here \<in> set [here] \<and>
   lat here = snd (coordinates ([toronto5G] ! 0)) \<and>
   lng here = fst (coordinates ([toronto5G] ! 0)) \<and>
   getNearbyGridKeys decimal_str (lat here) (lng here) DEFAULT_SEARCH_RADIUS ! 4 = ''43.6,-79.4'' \<and>
   cell_key decimal_str (0, [toronto5G] ! 0) = ''43.6,-79.4'' \<and>
   spatialIndex (new_CoverageCalculator decimal_str [toronto5G]) ''43.6,-79.4''
     = Some [(0, toronto5G)] \<and>
   (0, [toronto5G] ! 0) \<in> set (gatherNearbyPoints decimal_str
      (spatialIndex (new_CoverageCalculator decimal_str [toronto5G])) [here] DEFAULT_SEARCH_RADIUS)"
proof -
  have h: "(0::nat) < length [toronto5G]" "here \<in> set [here]"
    "lat here = snd (coordinates ([toronto5G] ! 0))"
    "lng here = fst (coordinates ([toronto5G] ! 0))"
    by (simp_all add: sample_defs)
  have k: "cell_key decimal_str (0, [toronto5G] ! 0) = ''43.6,-79.4''"
    by (simp add: cell_key_def getGridKey_def gridSize_def decimal_str_def fraction_str_def digit_def sample_defs)
  have b: "spatialIndex (new_CoverageCalculator decimal_str [toronto5G]) ''43.6,-79.4''
     = Some [(0, toronto5G)]"
    by (simp add: new_CoverageCalculator_def buildSpatialIndex_def index_add_def getGridKey_def
        gridSize_def decimal_str_def fraction_str_def digit_def toronto5G_def)
  from query_finds_own_point [OF h, of decimal_str DEFAULT_SEARCH_RADIUS] h k b
  show ?thesis by simp
qed

section \<open>The distance test\<close>

lemma atan2_sin_cos:
  assumes "0 \<le> t" "t < pi / 2"
  shows "atan2 (sin t) (cos t) = t"
proof -
  from assms have c: "0 < cos t" by (simp add: cos_gt_zero_pi)
  have "arctan (sin t / cos t) = arctan (tan t)" by (simp add: tan_def)
  also have "\<dots> = t" using assms by (simp add: arctan_tan)
  finally show ?thesis using c by (simp add: atan2_def)
qed

text \<open>Along a meridian the distance is the arc: 6371 km times the angle in radians.\<close>

lemma haversine_same_lon:
  assumes "\<bar>lat2 - lat1\<bar> < 180"
  shows "haversineDistance lat1 lon lat2 lon = Num (6371 * toRad \<bar>lat2 - lat1\<bar>)"
proof -
  define t where "t = toRad \<bar>lat2 - lat1\<bar> / 2"
  define u where "u = toRad (lat2 - lat1) / 2"
  have t0: "0 \<le> t" by (simp add: t_def toRad_def)
  have "\<bar>lat2 - lat1\<bar> * (pi / 180) < 180 * (pi / 180)"
    using assms by (intro mult_strict_right_mono) simp_all
  then have t1: "t < pi / 2" by (simp add: t_def toRad_def)
  have ut: "u = t \<or> u = - t"
  proof (cases "0 \<le> lat2 - lat1")
    case True
    then have "\<bar>lat2 - lat1\<bar> = lat2 - lat1" by simp
    then show ?thesis by (simp add: u_def t_def)
  next
    case False
    then have "\<bar>lat2 - lat1\<bar> = - (lat2 - lat1)" by simp
    then have "t = toRad (- (lat2 - lat1)) / 2" by (simp only: t_def)
    also have "\<dots> = - u"
      unfolding u_def toRad_def by (simp only: mult_minus_left minus_divide_left)
    finally show ?thesis by simp
  qed
  then have sq: "sin u * sin u = sin t * sin t" by auto
  have c: "0 < cos t" using t0 t1 by (simp add: cos_gt_zero_pi)
  have s: "0 \<le> sin t" using t0 t1 pi_gt_zero by (intro sin_ge_zero) simp_all
  have one: "1 - sin t * sin t = cos t * cos t"
    using sin_cos_squared_add3 [of t] by linarith
  have a0: "0 \<le> sin t * sin t" by simp
  have "0 \<le> cos t * cos t" by simp
  with one have a1: "sin t * sin t \<le> 1" by linarith
  have r1: "sqrt (sin t * sin t) = sin t" using s by simp
  have r2: "sqrt (cos t * cos t) = cos t" using c by simp
  have z: "toRad (lon - lon) = 0" by (simp add: toRad_def)
  have "haversineDistance lat1 lon lat2 lon
      = (if sin u * sin u < 0 \<or> 1 < sin u * sin u then NaN
         else Num (6371 * (2 * atan2 (sqrt (sin u * sin u)) (sqrt (1 - sin u * sin u)))))"
    unfolding haversineDistance_def Let_def z u_def by simp
  also have "\<dots> = Num (6371 * (2 * atan2 (sqrt (sin t * sin t)) (sqrt (1 - sin t * sin t))))"
    unfolding sq using a0 a1 by (simp only: not_less [symmetric] simp_thms if_False)
  also have "\<dots> = Num (6371 * (2 * t))"
    by (simp only: one r1 r2 atan2_sin_cos [OF t0 t1])
  finally show ?thesis by (simp add: t_def)
qed

lemma far_distance:
  "haversineDistance (snd (coordinates halfKmNorth)) (fst (coordinates halfKmNorth))
     (lat here) (lng here) = Num (6371 * toRad 0.005)"
proof -
  have e: "lng here = fst (coordinates halfKmNorth)"
    by (simp add: halfKmNorth_def toronto5G_def here_def)
  have a: "\<bar>lat here - snd (coordinates halfKmNorth)\<bar> = 0.005"
    by (simp add: halfKmNorth_def toronto5G_def here_def)
  then have "\<bar>lat here - snd (coordinates halfKmNorth)\<bar> < 180" by simp
  from haversine_same_lon [OF this, of "fst (coordinates halfKmNorth)"]
  show ?thesis by (simp only: e a)
qed

lemma far_bounds: "0.3 < 6371 * toRad 0.005 \<and> 6371 * toRad 0.005 < 1"
  using pi_ge_two pi_less_4 by (simp add: toRad_def)

lemma far_not_nearby: "\<not> isNearby [here] DEFAULT_SEARCH_RADIUS halfKmNorth"
proof -
  have "\<not> js_le (Num (6371 * toRad 0.005)) (Num DEFAULT_SEARCH_RADIUS)"
    using far_bounds by (simp add: DEFAULT_SEARCH_RADIUS_def)
  then show ?thesis
    by (simp add: isNearby_def case_prod_unfold far_distance)
qed

lemma far_candidates:
  "gatherNearbyPoints decimal_str (spatialIndex (new_CoverageCalculator decimal_str [halfKmNorth]))
     [here] DEFAULT_SEARCH_RADIUS = [(0, halfKmNorth)]"
  by (simp add: new_CoverageCalculator_def gatherNearbyPoints_def addGridCells_def addCell_def
      getNearbyGridKeys_def buildSpatialIndex_def index_add_def getGridKey_def gridSize_def
      decimal_str_def fraction_str_def digit_def set_add_def halfKmNorth_def toronto5G_def here_def Let_def)

lemma far_result:
  "fst (calculateSegmentCoverage decimal_str (new_CoverageCalculator decimal_str [halfKmNorth])
          [here] noFilters DEFAULT_SEARCH_RADIUS)
     = \<lparr>path = [here], coverage = Num 0,
        coverageDetails = [(''5G'', Num 0), (''4G'', Num 0), (''3G'', Num 0), (''other'', Num 0)]\<rparr>"
proof -
  have p: "passesFilters noFilters halfKmNorth"
    by (simp add: passesFilters_def noFilters_def)
  have t: "tallyPoints noFilters [here] DEFAULT_SEARCH_RADIUS [(0, halfKmNorth)]
      = (initialDetails, 0, Num 0)"
    using far_not_nearby p by (simp add: tallyPoints_def processPoint_def)
  show ?thesis
    using far_candidates t
    by (simp add: calculateSegmentCoverage_def computeSegment_def Let_def initialDetails_def
        new_CoverageCalculator_def)
qed

text \<open>
  C1 says that a candidate is counted exactly when it lies within the radius of a point
  of the chunk, the default radius being about 1.1 km (0.01 degree). The code compares the
  distance, in kilometres, with the number 0.01: with the default radius, a candidate that
  is between 0.3 km and 1 km from the only point of the chunk, is returned by the grid
  query and passes the filter is not counted.
\<close>

theorem half_km_away_not_counted:
  "haversineDistance (snd (coordinates halfKmNorth)) (fst (coordinates halfKmNorth))
     (lat here) (lng here) = Num (6371 * toRad 0.005) \<and>
   0.3 < 6371 * toRad 0.005 \<and> 6371 * toRad 0.005 < 1 \<and>
   gatherNearbyPoints decimal_str (spatialIndex (new_CoverageCalculator decimal_str [halfKmNorth]))
     [here] DEFAULT_SEARCH_RADIUS = [(0, halfKmNorth)] \<and>
   passesFilters noFilters halfKmNorth \<and>
   fst (calculateSegmentCoverage decimal_str (new_CoverageCalculator decimal_str [halfKmNorth])
          [here] noFilters DEFAULT_SEARCH_RADIUS)
     = \<lparr>path = [here], coverage = Num 0,
        coverageDetails = [(''5G'', Num 0), (''4G'', Num 0), (''3G'', Num 0), (''other'', Num 0)]\<rparr>"
proof -
  have p: "passesFilters noFilters halfKmNorth"
    by (simp add: passesFilters_def noFilters_def)
  from far_distance far_bounds far_candidates p far_result show ?thesis by blast
qed

section \<open>Counting and scoring\<close>

lemma processPoint_count:
  "fst (snd (processPoint f seg r acc p))
     = fst (snd acc) + (if qualifies f seg r p then 1 else 0)"
  by (cases acc) (simp add: processPoint_def qualifies_def Let_def)

lemma foldl_processPoint_count:
  "fst (snd (foldl (processPoint f seg r) acc ps))
     = fst (snd acc) + length (filter (qualifies f seg r) ps)"
  by (induction ps arbitrary: acc) (simp_all add: processPoint_count)

lemma tallyPoints_count:
  "fst (snd (tallyPoints f seg r ps)) = length (filter (qualifies f seg r) ps)"
  by (simp add: tallyPoints_def foldl_processPoint_count)

lemma totalPoints_eq:
  "totalPoints num_str idx seg f r = length (passing num_str idx seg f r)"
  by (simp add: totalPoints_def passing_def tallyPoints_count)

text \<open>
  The points that are counted are the candidates that pass the filter and whose distance
  in kilometres to a point of the segment is at most the number \<open>searchRadius\<close>.
\<close>

lemma passing_iff:
  "r \<in> set (passing num_str idx seg f rad) \<longleftrightarrow>
     r \<in> set (gatherNearbyPoints num_str idx seg rad) \<and> passesFilters f (snd r) \<and>
     (\<exists>p \<in> set seg. js_le (haversineDistance (snd (coordinates (snd r)))
                          (fst (coordinates (snd r))) (lat p) (lng p)) (Num rad))"
  by (auto simp: passing_def qualifies_def isNearby_def list_ex_iff case_prod_unfold Let_def)

lemma statusWeight_plain: "plainStatus s \<Longrightarrow> statusWeight s = Num (spec_weight s)"
  by (simp add: statusWeight_def plainStatus_def spec_weight_def COVERAGE_WEIGHTS_def
      other_weight_def)

lemma spec_weight_bounds: "0 < spec_weight s \<and> spec_weight s \<le> 1"
  by (simp add: spec_weight_def)

lemma foldl_processPoint_score:
  assumes "\<forall>p \<in> set ps. qualifies f seg r p \<longrightarrow> plainStatus (status (snd p))"
  shows "snd (snd (foldl (processPoint f seg r) (d, n, Num x) ps))
     = Num (x + sum_list (map (\<lambda>p. spec_weight (status (snd p)))
                            (filter (qualifies f seg r) ps)))"
  using assms
proof (induction ps arbitrary: d n x)
  case Nil
  then show ?case by simp
next
  case (Cons p ps)
  show ?case
  proof (cases "qualifies f seg r p")
    case True
    with Cons.prems have "plainStatus (status (snd p))" by simp
    with True obtain d' n' where "processPoint f seg r (d, n, Num x) p
      = (d', n', Num (x + spec_weight (status (snd p))))"
      by (simp add: processPoint_def qualifies_def Let_def statusWeight_plain)
    with True Cons.IH [of d' n' "x + spec_weight (status (snd p))"] Cons.prems
    show ?thesis by (simp add: add.assoc)
  next
    case False
    then have "processPoint f seg r (d, n, Num x) p = (d, n, Num x)"
      by (auto simp: processPoint_def qualifies_def Let_def)
    with False Cons.IH [of d n x] Cons.prems
    show ?thesis by simp
  qed
qed

lemma sum_list_weights_le: "sum_list (map (\<lambda>p. spec_weight (g p)) qs) \<le> real (length qs)"
proof (induction qs)
  case Nil
  then show ?case by simp
next
  case (Cons q qs)
  with spec_weight_bounds [of "g q"] show ?case by simp
qed

lemma sum_list_weights_ge: "0 \<le> sum_list (map (\<lambda>p. spec_weight (g p)) qs)"
proof (induction qs)
  case Nil
  then show ?case by simp
next
  case (Cons q qs)
  with spec_weight_bounds [of "g q"] show ?case by simp
qed

text \<open>
  When every qualifying point has a plain status, a computed score is the mean of the
  weights of the qualifying points, 0 when there is none, and lies between 0 and 1.
\<close>

lemma mean_weight_plain:
  assumes "\<forall>p \<in> set (passing num_str idx seg f r). plainStatus (status (snd p))"
  shows "coverage (computeSegment num_str idx seg f r)
      = Num (if passing num_str idx seg f r = [] then 0
             else sum_list (map (\<lambda>p. spec_weight (status (snd p))) (passing num_str idx seg f r))
                  / real (length (passing num_str idx seg f r)))"
proof -
  let ?ps = "gatherNearbyPoints num_str idx seg r"
  from assms have a: "\<forall>p \<in> set ?ps. qualifies f seg r p \<longrightarrow> plainStatus (status (snd p))"
    by (auto simp: passing_def)
  obtain d n s where t: "tallyPoints f seg r ?ps = (d, n, s)"
    by (cases "tallyPoints f seg r ?ps") auto
  from t tallyPoints_count [of f seg r ?ps] have n: "n = length (passing num_str idx seg f r)"
    by (simp add: passing_def)
  from t foldl_processPoint_score [OF a, of initialDetails 0 0]
  have s: "s = Num (sum_list (map (\<lambda>p. spec_weight (status (snd p)))
                      (passing num_str idx seg f r)))"
    by (simp add: passing_def tallyPoints_def)
  show ?thesis
    using t n s by (simp add: computeSegment_def Let_def)
qed

lemma mean_weight_plain_bounds:
  assumes "\<forall>p \<in> set (passing num_str idx seg f r). plainStatus (status (snd p))"
  shows "\<exists>x. coverage (computeSegment num_str idx seg f r) = Num x \<and> 0 \<le> x \<and> x \<le> 1"
proof -
  let ?qs = "passing num_str idx seg f r"
  let ?w = "sum_list (map (\<lambda>p. spec_weight (status (snd p))) ?qs)"
  have "0 \<le> ?w / real (length ?qs)"
    using sum_list_weights_ge [of "\<lambda>p. status (snd p)" ?qs] by simp
  moreover have "?w / real (length ?qs) \<le> 1" if "?qs \<noteq> []"
    using sum_list_weights_le [of "\<lambda>p. status (snd p)" ?qs] that
    by (simp add: divide_le_eq)
  ultimately show ?thesis
    unfolding mean_weight_plain [OF assms] by auto
qed

text \<open>
  C2 says that a passing point whose status is none of 5G, 4G and 3G increments the count
  of \<^verbatim>\<open>other\<close>, and that the breakdown keeps its four keys. For the status of the test
  data of the repository the code leaves the count of \<^verbatim>\<open>other\<close> at 0 and adds a fifth
  key, whose value is \<^verbatim>\<open>NaN\<close>; the weight 0.1 is added to the score.
\<close>

theorem unknown_status_adds_a_key:
  "fst (calculateSegmentCoverage decimal_str (new_CoverageCalculator decimal_str [testStatus])
          [here] noFilters DEFAULT_SEARCH_RADIUS)
     = \<lparr>path = [here], coverage = Num 0.1,
        coverageDetails = [(''5G'', Num 0), (''4G'', Num 0), (''3G'', Num 0), (''other'', Num 0),
                           (''Test Status'', NaN)]\<rparr>"
  by (simp add: calc_defs sample_defs Let_def)

text \<open>
  C5 says that the score is the mean weight of the passing points and lies in \<open>[0, 1]\<close>.
  For a passing point whose status names a member of \<^verbatim>\<open>Object.prototype\<close> the lookup of
  line 147 finds that member instead of falling back to the weight of \<^verbatim>\<open>other\<close>, and
  the score of the segment is \<^verbatim>\<open>NaN\<close>.
\<close>

theorem inherited_status_score_is_NaN:
  "fst (calculateSegmentCoverage decimal_str
          (new_CoverageCalculator decimal_str [constructorStatus])
          [here] noFilters DEFAULT_SEARCH_RADIUS)
     = \<lparr>path = [here], coverage = NaN,
        coverageDetails = [(''5G'', Num 0), (''4G'', Num 0), (''3G'', Num 0), (''other'', Num 0),
                           (''constructor'', NaN)]\<rparr>"
  by (simp add: calc_defs sample_defs Let_def)

section \<open>Widening a filter\<close>

lemma array_includes_append: "array_includes xs v \<Longrightarrow> array_includes (xs @ [w]) v"
  by (auto simp: array_includes_def split: option.splits)

lemma passesFilters_widen:
  assumes "allowList d f \<noteq> []" and "passesFilters f p"
  shows "passesFilters (widen d v f) p"
  using assms by (cases d) (auto simp: passesFilters_char array_includes_append)

lemma length_filter_mono:
  assumes "\<And>x. x \<in> set xs \<Longrightarrow> P x \<Longrightarrow> Q x"
  shows "length (filter P xs) \<le> length (filter Q xs)"
  using assms by (induction xs) auto

text \<open>
  C8, as the claim states it, fails: an empty allow-list does not filter, so adding a
  value to it can only exclude points. With no filter the sample point is counted; with
  the operators list widened from empty to one other operator it is not.
\<close>

theorem widening_empty_list_counterexample:
  "totalPoints decimal_str (spatialIndex (new_CoverageCalculator decimal_str [toronto5G]))
     [here] noFilters DEFAULT_SEARCH_RADIUS = 1 \<and>
   totalPoints decimal_str (spatialIndex (new_CoverageCalculator decimal_str [toronto5G]))
     [here] (widen Operators ''Rogers'' noFilters) DEFAULT_SEARCH_RADIUS = 0"
  by (simp add: totalPoints_eq passing_def toronto_candidates qualifies_def toronto_nearby)
     (simp add: passesFilters_def noFilters_def toronto5G_def array_includes_def)

text \<open>
  C8, amended: for every chunk and every filter state, adding a value to one of the four
  allow-lists that is not empty never decreases the number of qualifying points of the
  chunk.
\<close>

theorem widening_nonempty_list_monotone:
  assumes "allowList d f \<noteq> []"
  shows "totalPoints num_str idx seg f r \<le> totalPoints num_str idx seg (widen d v f) r"
  unfolding totalPoints_eq passing_def
  by (rule length_filter_mono) (simp add: qualifies_def passesFilters_widen [OF assms])

theorem widening_nonempty_list_monotone_witness:
  "allowList Operators onlyRogers \<noteq> [] \<and>
   totalPoints decimal_str (spatialIndex (new_CoverageCalculator decimal_str [toronto5G]))
     [here] onlyRogers DEFAULT_SEARCH_RADIUS = 0 \<and>
   totalPoints decimal_str (spatialIndex (new_CoverageCalculator decimal_str [toronto5G]))
     [here] (widen Operators ''Test Operator'' onlyRogers) DEFAULT_SEARCH_RADIUS = 1"
proof -
  have h: "allowList Operators onlyRogers \<noteq> []" by (simp add: onlyRogers_def)
  have a: "totalPoints decimal_str (spatialIndex (new_CoverageCalculator decimal_str [toronto5G]))
     [here] onlyRogers DEFAULT_SEARCH_RADIUS = 0"
    by (simp add: totalPoints_eq passing_def toronto_candidates qualifies_def toronto_nearby)
       (simp add: passesFilters_def onlyRogers_def toronto5G_def array_includes_def)
  have b: "totalPoints decimal_str (spatialIndex (new_CoverageCalculator decimal_str [toronto5G]))
     [here] (widen Operators ''Test Operator'' onlyRogers) DEFAULT_SEARCH_RADIUS = 1"
    by (simp add: totalPoints_eq passing_def toronto_candidates qualifies_def toronto_nearby)
       (simp add: passesFilters_def onlyRogers_def toronto5G_def array_includes_def)
  from widening_nonempty_list_monotone [OF h, of decimal_str
      "spatialIndex (new_CoverageCalculator decimal_str [toronto5G])" "[here]"
      DEFAULT_SEARCH_RADIUS "''Test Operator''"] h a b
  show ?thesis by simp
qed

section \<open>The cache\<close>

lemma map_coords_cong:
  "map lat seg' = map lat seg \<Longrightarrow> map lng seg' = map lng seg \<Longrightarrow>
   map (\<lambda>p. g (lat p) (lng p)) seg' = map (\<lambda>p. g (lat p) (lng p)) seg"
proof (induction seg arbitrary: seg')
  case Nil
  then show ?case by simp
next
  case (Cons q seg)
  then obtain q' rest where "seg' = q' # rest" by (cases seg') auto
  with Cons show ?case by auto
qed


lemma sample_result:
  "calculateSegmentCoverage decimal_str (new_CoverageCalculator decimal_str [toronto5G])
     [here] noFilters DEFAULT_SEARCH_RADIUS
   = (\<lparr>path = [here], coverage = Num 1,
       coverageDetails = [(''5G'', Num 1), (''4G'', Num 0), (''3G'', Num 0), (''other'', Num 0)]\<rparr>,
      \<lparr>points = [toronto5G],
       spatialIndex = [''43.6,-79.4'' \<mapsto> [(0, toronto5G)]],
       cache = [getCacheKey decimal_str [here] noFilters \<mapsto>
         \<lparr>path = [here], coverage = Num 1,
          coverageDetails = [(''5G'', Num 1), (''4G'', Num 0), (''3G'', Num 0), (''other'', Num 0)]\<rparr>]\<rparr>)"
  by (simp add: calc_defs sample_defs Let_def)

lemma far_nearby_at_1km: "isNearby [here] 1 halfKmNorth"
proof -
  have "js_le (Num (6371 * toRad 0.005)) (Num 1)"
    using far_bounds by simp
  then show ?thesis
    by (simp add: isNearby_def case_prod_unfold far_distance)
qed

lemma far_computed_at_1km:
  "computeSegment decimal_str (spatialIndex (new_CoverageCalculator decimal_str [halfKmNorth]))
     [here] noFilters 1
   = \<lparr>path = [here], coverage = Num 1,
      coverageDetails = [(''5G'', Num 1), (''4G'', Num 0), (''3G'', Num 0), (''other'', Num 0)]\<rparr>"
proof -
  have g: "gatherNearbyPoints decimal_str
      (spatialIndex (new_CoverageCalculator decimal_str [halfKmNorth])) [here] 1
      = [(0, halfKmNorth)]"
    by (simp add: new_CoverageCalculator_def gatherNearbyPoints_def addGridCells_def addCell_def
        getNearbyGridKeys_def buildSpatialIndex_def index_add_def getGridKey_def gridSize_def
        decimal_str_def fraction_str_def digit_def set_add_def halfKmNorth_def toronto5G_def
        here_def Let_def)
  have p: "passesFilters noFilters halfKmNorth"
    by (simp add: passesFilters_def noFilters_def)
  have s: "status halfKmNorth = ''5G''"
    by (simp add: halfKmNorth_def toronto5G_def)
  have t: "tallyPoints noFilters [here] 1 [(0, halfKmNorth)]
      = ([(''5G'', Num 1), (''4G'', Num 0), (''3G'', Num 0), (''other'', Num 0)], 1, Num 1)"
    using far_nearby_at_1km p
    by (simp add: tallyPoints_def processPoint_def s increment_def statusWeight_def
        initialDetails_def COVERAGE_WEIGHTS_def)
  show ?thesis
    by (simp add: computeSegment_def g t Let_def)
qed

lemma far_cache_miss:
  "cache (new_CoverageCalculator decimal_str [halfKmNorth])
     (getCacheKey decimal_str [here] noFilters) = None"
  by (simp add: new_CoverageCalculator_def)

text \<open>
  C7: two calls of \<^verbatim>\<open>calculateSegmentCoverage\<close> in succession with the same segment and
  the same filters return the same result, because the second call hits the cache. A call
  returns the entry that the cache holds under the fingerprint of its arguments, whatever
  that entry is, and leaves the calculator as it is; without such an entry it returns the
  freshly computed value. After a call the cache holds the returned value under the
  fingerprint, so a second call returns it, even with a radius for which a computation
  would give another value.
\<close>

theorem second_call_returns_first_result:
  "(\<forall>s. cache this (getCacheKey num_str seg f) = Some s \<longrightarrow>
        calculateSegmentCoverage num_str this seg f r = (s, this)) \<and>
   (cache this (getCacheKey num_str seg f) = None \<longrightarrow>
        fst (calculateSegmentCoverage num_str this seg f r)
          = computeSegment num_str (spatialIndex this) seg f r) \<and>
   cache (snd (calculateSegmentCoverage num_str this seg f r)) (getCacheKey num_str seg f)
     = Some (fst (calculateSegmentCoverage num_str this seg f r)) \<and>
   calculateSegmentCoverage num_str (snd (calculateSegmentCoverage num_str this seg f r)) seg f r'
     = (fst (calculateSegmentCoverage num_str this seg f r),
        snd (calculateSegmentCoverage num_str this seg f r))"
  by (simp add: calculateSegmentCoverage_def Let_def split: option.splits)

theorem second_call_returns_first_result_witness:
  "cache (new_CoverageCalculator decimal_str [halfKmNorth])
     (getCacheKey decimal_str [here] noFilters) = None \<and>
   fst (calculateSegmentCoverage decimal_str (new_CoverageCalculator decimal_str [halfKmNorth])
        [here] noFilters DEFAULT_SEARCH_RADIUS)
   = computeSegment decimal_str (spatialIndex (new_CoverageCalculator decimal_str [halfKmNorth]))
       [here] noFilters DEFAULT_SEARCH_RADIUS \<and>
   cache (snd (calculateSegmentCoverage decimal_str
        (new_CoverageCalculator decimal_str [halfKmNorth]) [here] noFilters DEFAULT_SEARCH_RADIUS))
     (getCacheKey decimal_str [here] noFilters)
   = Some \<lparr>path = [here], coverage = Num 0,
       coverageDetails = [(''5G'', Num 0), (''4G'', Num 0), (''3G'', Num 0), (''other'', Num 0)]\<rparr> \<and>
   fst (calculateSegmentCoverage decimal_str
     (snd (calculateSegmentCoverage decimal_str (new_CoverageCalculator decimal_str [halfKmNorth])
        [here] noFilters DEFAULT_SEARCH_RADIUS))
     [here] noFilters 1)
   = \<lparr>path = [here], coverage = Num 0,
      coverageDetails = [(''5G'', Num 0), (''4G'', Num 0), (''3G'', Num 0), (''other'', Num 0)]\<rparr> \<and>
   computeSegment decimal_str (spatialIndex (new_CoverageCalculator decimal_str [halfKmNorth]))
     [here] noFilters 1
   = \<lparr>path = [here], coverage = Num 1,
      coverageDetails = [(''5G'', Num 1), (''4G'', Num 0), (''3G'', Num 0), (''other'', Num 0)]\<rparr>"
  using second_call_returns_first_result [where num_str = decimal_str
      and this = "new_CoverageCalculator decimal_str [halfKmNorth]" and seg = "[here]"
      and f = noFilters and r = DEFAULT_SEARCH_RADIUS and r' = 1]
    far_cache_miss far_computed_at_1km
  by (simp add: far_result)



section \<open>Fingerprints are injective\<close>

lemma split_at_delim:
  assumes "d \<notin> set u" "d \<notin> set u'" "u @ d # r = u' @ d # r'"
  shows "u = u' \<and> r = r'"
  using assms
proof (induction u arbitrary: u')
  case Nil
  then show ?case by (cases u') auto
next
  case (Cons x u)
  then show ?case by (cases u') auto
qed

lemma hex_digit_inj:
  assumes "hex_digit n = hex_digit m"
  shows "n mod 16 = m mod 16"
proof -
  have d: "distinct ''0123456789abcdef''" by simp
  have "n mod 16 < length ''0123456789abcdef''" "m mod 16 < length ''0123456789abcdef''"
    by simp_all
  from nth_eq_iff_index_eq [OF d this] assms show ?thesis
    by (simp add: hex_digit_def)
qed

lemma control_char_eq:
  assumes "(of_char c :: nat) < 32" "(of_char c' :: nat) < 32"
    and "hex_digit (of_char c div 16) = hex_digit (of_char c' div 16)"
    and "hex_digit (of_char c) = hex_digit (of_char c')"
  shows "c = c'"
proof -
  let ?n = "of_char c :: nat" and ?m = "of_char c' :: nat"
  from hex_digit_inj [OF assms(4)] have lo: "?n mod 16 = ?m mod 16" .
  from hex_digit_inj [OF assms(3)] have "(?n div 16) mod 16 = (?m div 16) mod 16" .
  moreover from assms(1,2) have "?n div 16 < 16" "?m div 16 < 16" by simp_all
  ultimately have hi: "?n div 16 = ?m div 16" by simp
  have "?n = 16 * (?n div 16) + ?n mod 16" by simp
  also have "\<dots> = 16 * (?m div 16) + ?m mod 16" by (simp only: lo hi)
  also have "\<dots> = ?m" by simp
  finally show ?thesis by simp
qed

lemma json_escape_not_quote: "json_escape c = x # xs \<Longrightarrow> x \<noteq> CHR 0x22"
  by (auto simp: json_escape_def split: if_splits)

lemma json_escape_prefix:
  assumes "json_escape c @ r = json_escape c' @ r'"
  shows "c = c' \<and> r = r'"
  using assms
  by (auto simp: json_escape_def control_char_eq split: if_splits)

lemma escaped_prefix:
  assumes "concat (map json_escape s) @ CHR 0x22 # r = concat (map json_escape s') @ CHR 0x22 # r'"
  shows "s = s' \<and> r = r'"
  using assms
proof (induction s arbitrary: s')
  case Nil
  show ?case
  proof (cases s')
    case Nil
    with Nil.prems show ?thesis by simp
  next
    case (Cons c' t')
    obtain x xs where e: "json_escape c' = x # xs"
      by (cases "json_escape c'") (auto simp: json_escape_def split: if_splits)
    with Nil.prems Cons json_escape_not_quote [OF e] show ?thesis by simp
  qed
next
  case (Cons c t)
  show ?case
  proof (cases s')
    case Nil
    obtain x xs where e: "json_escape c = x # xs"
      by (cases "json_escape c") (auto simp: json_escape_def split: if_splits)
    with Cons.prems Nil json_escape_not_quote [OF e] show ?thesis by simp
  next
    case (Cons c' t')
    with Cons.prems have "json_escape c @ (concat (map json_escape t) @ CHR 0x22 # r)
        = json_escape c' @ (concat (map json_escape t') @ CHR 0x22 # r')"
      by simp
    from json_escape_prefix [OF this] have "c = c'"
      and "concat (map json_escape t) @ CHR 0x22 # r = concat (map json_escape t') @ CHR 0x22 # r'"
      by simp_all
    with Cons.IH [of t'] Cons show ?thesis by simp
  qed
qed

lemma json_string_prefix:
  assumes "json_string s @ r = json_string s' @ r'"
  shows "s = s' \<and> r = r'"
  using assms escaped_prefix [of s r s' r'] by (simp add: json_string_def)

lemma json_string_hd: "json_string s = CHR 0x22 # tl (json_string s)"
  by (simp add: json_string_def)

lemma join_Cons: "join sep (x # xs) = x @ (if xs = [] then [] else sep @ join sep xs)"
  by (cases xs) simp_all

lemma array_items_prefix:
  assumes "join '','' (map json_string xs) @ CHR '']'' # r
         = join '','' (map json_string ys) @ CHR '']'' # r'"
  shows "xs = ys \<and> r = r'"
  using assms
proof (induction xs arbitrary: ys)
  case Nil
  then show ?case
    by (cases ys) (auto simp: join_Cons json_string_def)
next
  case (Cons x xs)
  show ?case
  proof (cases ys)
    case Nil
    with Cons.prems show ?thesis by (auto simp: join_Cons json_string_def)
  next
    case (Cons y ys')
    let ?rx = "(if xs = [] then [] else '','' @ join '','' (map json_string xs)) @ CHR '']'' # r"
    let ?ry = "(if ys' = [] then [] else '','' @ join '','' (map json_string ys')) @ CHR '']'' # r'"
    from Cons.prems Cons have "json_string x @ ?rx = json_string y @ ?ry"
      by (simp add: join_Cons)
    from json_string_prefix [OF this] have xy: "x = y" and rest: "?rx = ?ry" by simp_all
    show ?thesis
    proof (cases "xs = []")
      case True
      with rest have "ys' = []" by (cases "ys' = []") auto
      with True rest xy Cons show ?thesis by simp
    next
      case False
      with rest have ne: "ys' \<noteq> []" by (cases "ys' = []") auto
      with False rest have "join '','' (map json_string xs) @ CHR '']'' # r
           = join '','' (map json_string ys') @ CHR '']'' # r'" by simp
      from Cons.IH [OF this] xy Cons show ?thesis by simp
    qed
  qed
qed

lemma json_array_prefix:
  assumes "json_array xs @ r = json_array ys @ r'"
  shows "xs = ys \<and> r = r'"
  using assms array_items_prefix [of xs r ys r'] by (simp add: json_array_def)

lemma json_member_prefix:
  assumes "json_member name xs @ r = json_member name ys @ r'"
  shows "xs = ys \<and> r = r'"
  using assms json_array_prefix [of xs r ys r'] by (simp add: json_member_def)

lemma JSON_stringify_inj:
  assumes "JSON_stringify f = JSON_stringify f'"
  shows "f = f'"
proof -
  let ?t3 = "\<lambda>f. ''}''"
  let ?t2 = "\<lambda>f. '','' @ json_member ''statuses'' (statuses f) @ ?t3 f"
  let ?t1 = "\<lambda>f. '','' @ json_member ''operators'' (operators f) @ ?t2 f"
  let ?t0 = "\<lambda>f. '','' @ json_member ''phoneTypes'' (phoneTypes f) @ ?t1 f"
  from assms have "json_member ''countries'' (countries f) @ ?t0 f
      = json_member ''countries'' (countries f') @ ?t0 f'"
    by (simp add: JSON_stringify_def)
  from json_member_prefix [OF this] have c: "countries f = countries f'" and "?t0 f = ?t0 f'"
    by simp_all
  then have "json_member ''phoneTypes'' (phoneTypes f) @ ?t1 f
      = json_member ''phoneTypes'' (phoneTypes f') @ ?t1 f'" by simp
  from json_member_prefix [OF this] have p: "phoneTypes f = phoneTypes f'" and "?t1 f = ?t1 f'"
    by simp_all
  then have "json_member ''operators'' (operators f) @ ?t2 f
      = json_member ''operators'' (operators f') @ ?t2 f'" by simp
  from json_member_prefix [OF this] have ops: "operators f = operators f'" and "?t2 f = ?t2 f'"
    by simp_all
  then have "json_member ''statuses'' (statuses f) @ ?t3 f
      = json_member ''statuses'' (statuses f') @ ?t3 f'" by simp
  from json_member_prefix [OF this] have st: "statuses f = statuses f'" by simp
  from c p ops st show ?thesis by simp
qed

lemma not_first:
  assumes "c \<notin> set u" "c \<noteq> d" shows "u @ d # r \<noteq> c # r'"
  using assms by (cases u) auto

lemma not_first2:
  assumes "c \<notin> set u" "c \<noteq> d" shows "c # r' \<noteq> u @ d # r"
  using assms by (cases u) auto

lemma point_key_unfold:
  "point_key num_str p @ rest
     = num_str (Num (lat p)) @ CHR '','' # (num_str (Num (lng p)) @ rest)"
  by (simp add: point_key_def)

lemma segment_key_prefix:
  assumes "renders num_str D" "coords_in D seg" "coords_in D seg'"
    and "join ''|'' (map (point_key num_str) seg) @ ''|'' @ CHR ''{'' # r
       = join ''|'' (map (point_key num_str) seg') @ ''|'' @ CHR ''{'' # r'"
  shows "map lat seg = map lat seg' \<and> map lng seg = map lng seg' \<and> r = r'"
  using assms(2-)
proof (induction seg arbitrary: seg')
  case Nil
  show ?case
  proof (cases seg')
    case Nil
    with Nil.prems show ?thesis by simp
  next
    case (Cons q t)
    from Nil.prems(2) Cons assms(1) have "CHR ''|'' \<notin> set (num_str (Num (lat q)))"
      by (simp add: coords_in_def renders_def)
    from not_first2 [OF this, of "CHR '',''"] Nil.prems(3) Cons show ?thesis
      by (simp add: join_Cons point_key_def)
  qed
next
  case (Cons p t)
  show ?case
  proof (cases seg')
    case Nil
    from Cons.prems(1) assms(1) have "CHR ''|'' \<notin> set (num_str (Num (lat p)))"
      by (simp add: coords_in_def renders_def)
    from not_first [OF this, of "CHR '',''"] Cons.prems(3) Nil show ?thesis
      by (simp add: join_Cons point_key_def)
  next
    case (Cons p' t')
    let ?Y = "\<lambda>t r. (if t = [] then CHR ''{'' # r
                     else join ''|'' (map (point_key num_str) t) @ ''|'' @ CHR ''{'' # r)"
    from Cons.prems(1) assms(1) have
      p: "lat p \<in> D" "lng p \<in> D"
         "CHR '','' \<notin> set (num_str (Num (lat p)))" "CHR ''|'' \<notin> set (num_str (Num (lng p)))"
      by (simp_all add: coords_in_def renders_def)
    from Cons.prems(2) Cons assms(1) have
      p': "lat p' \<in> D" "lng p' \<in> D"
         "CHR '','' \<notin> set (num_str (Num (lat p')))" "CHR ''|'' \<notin> set (num_str (Num (lng p')))"
      by (simp_all add: coords_in_def renders_def)
    from Cons.prems(3) Cons have
      "num_str (Num (lat p)) @ CHR '','' # (num_str (Num (lng p)) @ CHR ''|'' # ?Y t r)
     = num_str (Num (lat p')) @ CHR '','' # (num_str (Num (lng p')) @ CHR ''|'' # ?Y t' r')"
      by (cases "t = []"; cases "t' = []"; simp add: join_Cons point_key_unfold)
    from split_at_delim [OF p(3) p'(3) this] have
      la: "num_str (Num (lat p)) = num_str (Num (lat p'))"
      and "num_str (Num (lng p)) @ CHR ''|'' # ?Y t r = num_str (Num (lng p')) @ CHR ''|'' # ?Y t' r'"
      by simp_all
    from split_at_delim [OF p(4) p'(4) this(2)] have
      lo: "num_str (Num (lng p)) = num_str (Num (lng p'))" and Y: "?Y t r = ?Y t' r'"
      by simp_all
    from assms(1) la p(1) p'(1) have lat: "lat p = lat p'"
      by (auto simp: renders_def inj_on_def)
    from assms(1) lo p(2) p'(2) have lng: "lng p = lng p'"
      by (auto simp: renders_def inj_on_def)
    have t_in: "coords_in D t" "coords_in D t'"
      using Cons.prems(1,2) Cons by (simp_all add: coords_in_def)
    have brace: "join ''|'' (map (point_key num_str) u) @ ''|'' @ CHR ''{'' # x \<noteq> CHR ''{'' # y"
      if "u \<noteq> []" "coords_in D u" for u x y
    proof -
      from that obtain q v where u: "u = q # v" by (cases u) auto
      with that(2) assms(1) have "CHR ''{'' \<notin> set (num_str (Num (lat q)))"
        by (simp add: coords_in_def renders_def)
      from not_first [OF this, of "CHR '',''"] show ?thesis
        by (simp add: u join_Cons point_key_def)
    qed
    show ?thesis
    proof (cases "t = []")
      case True
      with Y brace [of t' r' r] t_in(2) have "t' = []" by (cases "t' = []") auto
      with True Y lat lng Cons show ?thesis by simp
    next
      case False
      with Y brace [of t r r'] t_in(1) have ne: "t' \<noteq> []" by (cases "t' = []") auto
      with False Y have "join ''|'' (map (point_key num_str) t) @ ''|'' @ CHR ''{'' # r
          = join ''|'' (map (point_key num_str) t') @ ''|'' @ CHR ''{'' # r'" by simp
      from Cons.IH [OF t_in this] lat lng Cons show ?thesis by simp
    qed
  qed
qed

lemma JSON_stringify_brace: "JSON_stringify f = CHR ''{'' # tl (JSON_stringify f)"
  by (simp add: JSON_stringify_def)

lemma getCacheKey_inj:
  assumes "renders num_str D" "coords_in D seg" "coords_in D seg'"
    and "getCacheKey num_str seg f = getCacheKey num_str seg' f'"
  shows "map lat seg = map lat seg' \<and> map lng seg = map lng seg' \<and> f = f'"
proof -
  have k: "getCacheKey num_str s g
      = join ''|'' (map (point_key num_str) s) @ ''|'' @ CHR ''{'' # tl (JSON_stringify g)" for s g
    using JSON_stringify_brace [of g]
    by (simp add: getCacheKey_def point_key_def [abs_def])
  from assms(4) have "join ''|'' (map (point_key num_str) seg) @ ''|'' @ CHR ''{'' # tl (JSON_stringify f)
      = join ''|'' (map (point_key num_str) seg') @ ''|'' @ CHR ''{'' # tl (JSON_stringify f')"
    by (simp only: k)
  from segment_key_prefix [OF assms(1-3) this]
  have m: "map lat seg = map lat seg'" "map lng seg = map lng seg'"
    and "tl (JSON_stringify f) = tl (JSON_stringify f')" by simp_all
  with JSON_stringify_brace [of f] JSON_stringify_brace [of f']
  have "JSON_stringify f = JSON_stringify f'" by simp
  from JSON_stringify_inj [OF this] m show ?thesis by simp
qed

lemma call_spatialIndex:
  "spatialIndex (snd (calculateSegmentCoverage num_str this seg f r)) = spatialIndex this"
  by (simp add: calculateSegmentCoverage_def Let_def split: option.splits)

lemma call_cache_sound:
  assumes "cache_sound num_str D this" "coords_in D seg"
  shows "cache_sound num_str D (snd (calculateSegmentCoverage num_str this seg f r))"
proof (cases "cache this (getCacheKey num_str seg f)")
  case (Some s)
  with assms(1) show ?thesis by (simp add: calculateSegmentCoverage_def)
next
  case None
  show ?thesis
    unfolding cache_sound_def
  proof (intro allI impI)
    fix k s
    assume h: "cache (snd (calculateSegmentCoverage num_str this seg f r)) k = Some s"
    show "\<exists>seg' f' r'. coords_in D seg' \<and> k = getCacheKey num_str seg' f' \<and>
        s = computeSegment num_str
              (spatialIndex (snd (calculateSegmentCoverage num_str this seg f r))) seg' f' r'"
    proof (cases "k = getCacheKey num_str seg f")
      case True
      with h None have "s = computeSegment num_str (spatialIndex this) seg f r"
        by (simp add: calculateSegmentCoverage_def Let_def)
      with True assms(2) show ?thesis
        unfolding call_spatialIndex by blast
    next
      case False
      with h None have "cache this k = Some s"
        by (simp add: calculateSegmentCoverage_def Let_def)
      with assms(1) show ?thesis
        unfolding call_spatialIndex cache_sound_def by blast
    qed
  qed
qed

lemma reachable_cache_sound: "reachable num_str D this \<Longrightarrow> cache_sound num_str D this"
proof (induction rule: reachable.induct)
  case (fresh pts)
  show ?case by (simp add: cache_sound_def new_CoverageCalculator_def)
next
  case (call this segment filters r)
  then show ?case by (simp add: call_cache_sound)
qed

lemma isNearby_coords:
  "isNearby seg r pt
     = list_ex (\<lambda>c. js_le (haversineDistance (snd (coordinates pt)) (fst (coordinates pt))
                               (fst c) (snd c)) (Num r))
         (map (\<lambda>p. (lat p, lng p)) seg)"
  by (simp add: isNearby_def case_prod_unfold list_ex_iff Let_def)

lemma foldl_addGridCells_coords:
  "foldl (addGridCells num_str idx r) acc seg
     = foldl (\<lambda>nearby c. foldl (addCell idx) nearby (getNearbyGridKeys num_str (fst c) (snd c) r))
         acc (map (\<lambda>p. (lat p, lng p)) seg)"
  by (induction seg arbitrary: acc) (simp_all add: addGridCells_def)

lemma computeSegment_same_coords:
  assumes "map lat seg' = map lat seg" "map lng seg' = map lng seg"
  shows "computeSegment num_str idx seg' f r = (computeSegment num_str idx seg f r)\<lparr>path := seg'\<rparr>"
proof -
  from map_coords_cong [OF assms, of Pair]
  have c: "map (\<lambda>p. (lat p, lng p)) seg' = map (\<lambda>p. (lat p, lng p)) seg" .
  have n: "isNearby seg' r pt = isNearby seg r pt" for pt
    by (simp only: isNearby_coords c)
  have g: "gatherNearbyPoints num_str idx seg' r = gatherNearbyPoints num_str idx seg r"
    by (simp only: gatherNearbyPoints_def foldl_addGridCells_coords c)
  have "processPoint f seg' r = processPoint f seg r"
    by (intro ext) (simp add: processPoint_def n Let_def case_prod_unfold)
  then have t: "tallyPoints f seg' r = tallyPoints f seg r"
    by (intro ext) (simp add: tallyPoints_def)
  show ?thesis
    by (simp add: computeSegment_def g t Let_def case_prod_unfold)
qed

lemma call_result_sound:
  assumes "renders num_str D" "cache_sound num_str D this" "coords_in D seg"
  shows "\<exists>r0. (fst (calculateSegmentCoverage num_str this seg f r))\<lparr>path := seg\<rparr>
                 = computeSegment num_str (spatialIndex this) seg f r0 \<and>
              map lat (path (fst (calculateSegmentCoverage num_str this seg f r))) = map lat seg \<and>
              map lng (path (fst (calculateSegmentCoverage num_str this seg f r))) = map lng seg"
proof (cases "cache this (getCacheKey num_str seg f)")
  case None
  then have "fst (calculateSegmentCoverage num_str this seg f r)
      = computeSegment num_str (spatialIndex this) seg f r"
    by (simp add: calculateSegmentCoverage_def Let_def)
  then show ?thesis
    by (intro exI [of _ r]) (simp add: computeSegment_def Let_def case_prod_unfold)
next
  case (Some s)
  with assms(2) obtain seg0 f0 r0 where
    c: "coords_in D seg0" "getCacheKey num_str seg f = getCacheKey num_str seg0 f0"
       "s = computeSegment num_str (spatialIndex this) seg0 f0 r0"
    unfolding cache_sound_def by blast
  from getCacheKey_inj [OF assms(1) assms(3) c(1) c(2)]
  have e: "map lat seg0 = map lat seg" "map lng seg0 = map lng seg" "f0 = f" by simp_all
  from Some c(3) e(3) have "fst (calculateSegmentCoverage num_str this seg f r)
      = computeSegment num_str (spatialIndex this) seg0 f r0"
    by (simp add: calculateSegmentCoverage_def)
  also have "\<dots> = (computeSegment num_str (spatialIndex this) seg f r0)\<lparr>path := seg0\<rparr>"
    by (rule computeSegment_same_coords [OF e(1,2)])
  finally have res: "fst (calculateSegmentCoverage num_str this seg f r)
      = (computeSegment num_str (spatialIndex this) seg f r0)\<lparr>path := seg0\<rparr>" .
  have "path (computeSegment num_str (spatialIndex this) seg f r0) = seg"
    by (simp add: computeSegment_def Let_def case_prod_unfold)
  with res e(1,2) show ?thesis
    by (intro exI [of _ r0]) simp
qed

text \<open>
  C9: provided that the rendering of numbers is injective on the coordinates and produces
  none of the three delimiters, two calls with the same fingerprint have segments with the
  same coordinate sequence and equal filter states (so semantically different inputs have
  different fingerprints), and on every reachable calculator the route segment that a call
  returns, from the cache or not, is, up to the identity of the objects of its path, the
  one computed for the segment and the filter state of the call, at some radius.
\<close>

theorem fingerprints_distinct:
  assumes "renders num_str D" "reachable num_str D this" "coords_in D seg" "coords_in D seg'"
  shows "(getCacheKey num_str seg f = getCacheKey num_str seg' f' \<longrightarrow>
            map lat seg = map lat seg' \<and> map lng seg = map lng seg' \<and> f = f') \<and>
         (\<exists>r0. (fst (calculateSegmentCoverage num_str this seg f r))\<lparr>path := seg\<rparr>
                 = computeSegment num_str (spatialIndex this) seg f r0 \<and>
              map lat (path (fst (calculateSegmentCoverage num_str this seg f r))) = map lat seg \<and>
              map lng (path (fst (calculateSegmentCoverage num_str this seg f r))) = map lng seg)"
proof
  show "getCacheKey num_str seg f = getCacheKey num_str seg' f' \<longrightarrow>
          map lat seg = map lat seg' \<and> map lng seg = map lng seg' \<and> f = f'"
    using getCacheKey_inj [OF assms(1,3,4)] by blast
  show "\<exists>r0. (fst (calculateSegmentCoverage num_str this seg f r))\<lparr>path := seg\<rparr>
                 = computeSegment num_str (spatialIndex this) seg f r0 \<and>
              map lat (path (fst (calculateSegmentCoverage num_str this seg f r))) = map lat seg \<and>
              map lng (path (fst (calculateSegmentCoverage num_str this seg f r))) = map lng seg"
    by (rule call_result_sound [OF assms(1) reachable_cache_sound [OF assms(2)] assms(3)])
qed

lemma renders_sample: "renders decimal_str {43.6532, -79.3832}"
  by (simp add: renders_def decimal_str_def fraction_str_def digit_def)

theorem fingerprints_distinct_witness:
  "renders decimal_str {43.6532, -79.3832} \<and>
   reachable decimal_str {43.6532, -79.3832}
     (snd (calculateSegmentCoverage decimal_str (new_CoverageCalculator decimal_str [toronto5G])
        [here] noFilters DEFAULT_SEARCH_RADIUS)) \<and>
   coords_in {43.6532, -79.3832} [here_again] \<and> coords_in {43.6532, -79.3832} [here] \<and>
   getCacheKey decimal_str [here_again] noFilters = getCacheKey decimal_str [here] noFilters \<and>
   map lat [here_again] = map lat [here] \<and> map lng [here_again] = map lng [here] \<and>
   getCacheKey decimal_str [here] onlyRogers \<noteq> getCacheKey decimal_str [here] noFilters \<and>
   fst (calculateSegmentCoverage decimal_str
          (snd (calculateSegmentCoverage decimal_str
             (new_CoverageCalculator decimal_str [toronto5G])
             [here] noFilters DEFAULT_SEARCH_RADIUS))
          [here_again] noFilters DEFAULT_SEARCH_RADIUS)
   = \<lparr>path = [here], coverage = Num 1,
      coverageDetails = [(''5G'', Num 1), (''4G'', Num 0), (''3G'', Num 0), (''other'', Num 0)]\<rparr>"
proof -
  have c: "coords_in {43.6532, -79.3832} [here_again]" "coords_in {43.6532, -79.3832} [here]"
    by (simp_all add: coords_in_def here_def here_again_def)
  have k: "getCacheKey decimal_str [here_again] noFilters = getCacheKey decimal_str [here] noFilters"
    by (simp add: getCacheKey_def here_def here_again_def)
  have d: "getCacheKey decimal_str [here] onlyRogers \<noteq> getCacheKey decimal_str [here] noFilters"
    by (simp add: key_defs onlyRogers_def noFilters_def)
  have r: "reachable decimal_str {43.6532, -79.3832}
     (snd (calculateSegmentCoverage decimal_str (new_CoverageCalculator decimal_str [toronto5G])
        [here] noFilters DEFAULT_SEARCH_RADIUS))"
    by (rule reachable.call [OF reachable.fresh c(2)])
  have v: "fst (calculateSegmentCoverage decimal_str
          (snd (calculateSegmentCoverage decimal_str
             (new_CoverageCalculator decimal_str [toronto5G])
             [here] noFilters DEFAULT_SEARCH_RADIUS))
          [here_again] noFilters DEFAULT_SEARCH_RADIUS)
   = \<lparr>path = [here], coverage = Num 1,
      coverageDetails = [(''5G'', Num 1), (''4G'', Num 0), (''3G'', Num 0), (''other'', Num 0)]\<rparr>"
    by (simp add: sample_result) (simp add: calculateSegmentCoverage_def k)
  from fingerprints_distinct [OF renders_sample r c, where f = noFilters and f' = noFilters
      and r = DEFAULT_SEARCH_RADIUS] k
  have m: "map lat [here_again] = map lat [here]" "map lng [here_again] = map lng [here]"
    by blast+
  from renders_sample r c k m d v show ?thesis
    by (intro conjI)
qed

section \<open>Route analysis\<close>

declare splitLoop.simps [simp del] chunkResults.simps [simp del]

lemma splitLoop_chunkResults:
  "fst (splitLoop num_str route f i segs this)
     = segs @ filter hasCoverage (chunkResults num_str route f i this)"
proof (induction num_str route f i segs this rule: splitLoop.induct)
  case (1 num_str route f i segs this)
  show ?case
  proof (cases "i < length route")
    case False
    then show ?thesis
      by (simp add: splitLoop.simps [of num_str route f i] chunkResults.simps [of num_str route f i])
  next
    case True
    obtain result this' where c: "calculateSegmentCoverage num_str this
        (take SEGMENT_LENGTH (drop i route)) f DEFAULT_SEARCH_RADIUS = (result, this')"
      by (cases "calculateSegmentCoverage num_str this
        (take SEGMENT_LENGTH (drop i route)) f DEFAULT_SEARCH_RADIUS") auto
    from "1.IH" [OF True refl c [symmetric] refl] True c show ?thesis
      by (simp add: splitLoop.simps [of num_str route f i] chunkResults.simps [of num_str route f i])
  qed
qed

lemma obj_set_values:
  "set (obj_values (obj_set k v ps)) \<subseteq> insert v (set (obj_values ps))"
proof (induction ps)
  case Nil
  then show ?case by (simp add: obj_values_def)
next
  case (Cons p ps)
  obtain k' v' where p: "p = (k', v')" by (cases p)
  show ?case
  proof (cases "k = k'")
    case True
    then show ?thesis by (auto simp: p obj_values_def)
  next
    case False
    with Cons.IH show ?thesis by (auto simp: p obj_values_def)
  qed
qed

lemma map_of_in_values: "map_of ps k = Some v \<Longrightarrow> v \<in> set (obj_values ps)"
  by (induction ps) (auto simp: obj_values_def split: if_splits)

lemma increment_counts_ok: "counts_ok d \<Longrightarrow> counts_ok (increment k d)"
proof -
  assume ok: "counts_ok d"
  show ?thesis
  proof (cases "map_of d k")
    case None
    with ok obj_set_values [of k NaN d] show ?thesis
      by (auto simp: increment_def counts_ok_def)
  next
    case (Some v)
    with ok map_of_in_values [OF Some] have "case js_add v (Num 1) of Num x \<Rightarrow> 0 \<le> x | NaN \<Rightarrow> True"
      by (cases v) (auto simp: counts_ok_def)
    with ok Some obj_set_values [of k "js_add v (Num 1)" d] show ?thesis
      by (auto simp: increment_def counts_ok_def)
  qed
qed

lemma processPoint_counts_ok:
  "counts_ok (fst acc) \<Longrightarrow> counts_ok (fst (processPoint f seg r acc p))"
  by (cases acc) (simp add: processPoint_def Let_def increment_counts_ok)

lemma foldl_processPoint_counts_ok:
  "counts_ok (fst acc) \<Longrightarrow> counts_ok (fst (foldl (processPoint f seg r) acc ps))"
  by (induction ps arbitrary: acc) (simp_all add: processPoint_counts_ok)

lemma computeSegment_counts_ok:
  "counts_ok (coverageDetails (computeSegment num_str idx seg f r))"
proof -
  have "counts_ok (fst (initialDetails, 0::nat, Num 0))"
    by (simp add: counts_ok_def initialDetails_def obj_values_def)
  from foldl_processPoint_counts_ok [OF this]
  show ?thesis
    by (simp add: computeSegment_def tallyPoints_def Let_def case_prod_unfold)
qed

lemma call_cache_ok:
  assumes "cache_ok this"
  shows "cache_ok (snd (calculateSegmentCoverage num_str this seg f r))"
    and "counts_ok (coverageDetails (fst (calculateSegmentCoverage num_str this seg f r)))"
  using assms computeSegment_counts_ok [of num_str "spatialIndex this" seg f r]
  by (auto simp: calculateSegmentCoverage_def cache_ok_def Let_def split: option.splits)

lemma reachable_cache_ok: "reachable num_str D this \<Longrightarrow> cache_ok this"
proof (induction rule: reachable.induct)
  case (fresh pts)
  show ?case by (simp add: cache_ok_def new_CoverageCalculator_def)
next
  case (call this segment filters r)
  then show ?case by (simp add: call_cache_ok)
qed

lemma chunkResults_counts_ok:
  "cache_ok this \<Longrightarrow> \<forall>s \<in> set (chunkResults num_str route f i this). counts_ok (coverageDetails s)"
proof (induction num_str route f i this rule: chunkResults.induct)
  case (1 num_str route f i this)
  show ?case
  proof (cases "i < length route")
    case False
    then show ?thesis by (simp add: chunkResults.simps [of num_str route f i])
  next
    case True
    obtain result this' where c: "calculateSegmentCoverage num_str this
        (take SEGMENT_LENGTH (drop i route)) f DEFAULT_SEARCH_RADIUS = (result, this')"
      by (cases "calculateSegmentCoverage num_str this
        (take SEGMENT_LENGTH (drop i route)) f DEFAULT_SEARCH_RADIUS") auto
    from call_cache_ok [OF "1.prems", of num_str "take SEGMENT_LENGTH (drop i route)" f
        DEFAULT_SEARCH_RADIUS] c
    have ok: "cache_ok this'" "counts_ok (coverageDetails result)" by simp_all
    from "1.IH" [OF True c [symmetric] refl ok(1)] ok(2) True c show ?thesis
      by (simp add: chunkResults.simps [of num_str route f i])
  qed
qed

text \<open>
  On a breakdown without a \<^verbatim>\<open>NaN\<close> entry the test of line 190 is the test for a
  non-zero count.
\<close>

lemma hasCoverage_iff:
  assumes "counts_ok (coverageDetails s)" and "NaN \<notin> set (obj_values (coverageDetails s))"
  shows "hasCoverage s = hasNonZeroCount s"
proof -
  have "js_lt (Num 0) c = (c \<noteq> Num 0)" if "c \<in> set (obj_values (coverageDetails s))" for c
  proof (cases c)
    case (Num x)
    with that assms(1) have "0 \<le> x" by (auto simp: counts_ok_def)
    with Num show ?thesis by auto
  next
    case NaN
    with that assms(2) show ?thesis by simp
  qed
  then show ?thesis
    by (simp add: hasCoverage_def hasNonZeroCount_def list_ex_iff)
qed

lemma coords_in_take_drop: "coords_in D route \<Longrightarrow> coords_in D (take n (drop i route))"
  by (auto simp: coords_in_def dest: in_set_takeD in_set_dropD)

lemma reachable_splitLoop:
  "reachable num_str D this \<Longrightarrow> coords_in D route \<Longrightarrow>
   reachable num_str D (snd (splitLoop num_str route f i segs this))"
proof (induction num_str route f i segs this rule: splitLoop.induct)
  case (1 num_str route f i segs this)
  show ?case
  proof (cases "i < length route")
    case False
    with "1.prems" show ?thesis by (simp add: splitLoop.simps [of num_str route f i])
  next
    case True
    obtain result this' where c: "calculateSegmentCoverage num_str this
        (take SEGMENT_LENGTH (drop i route)) f DEFAULT_SEARCH_RADIUS = (result, this')"
      by (cases "calculateSegmentCoverage num_str this
        (take SEGMENT_LENGTH (drop i route)) f DEFAULT_SEARCH_RADIUS") auto
    from reachable.call [OF "1.prems"(1) coords_in_take_drop [OF "1.prems"(2)],
        of SEGMENT_LENGTH i f DEFAULT_SEARCH_RADIUS] c
    have "reachable num_str D this'" by simp
    from "1.IH" [OF True refl refl c [symmetric] refl this "1.prems"(2)] True c show ?thesis
      by (simp add: splitLoop.simps [of num_str route f i])
  qed
qed

lemma reachable_analyzeRouteCoverage:
  "reachable num_str D this \<Longrightarrow> coords_in D route \<Longrightarrow>
   reachable num_str D (snd (analyzeRouteCoverage num_str this route f))"
  using reachable_splitLoop [of num_str D this route f 0 "[]"]
  by (simp add: analyzeRouteCoverage_def case_prod_unfold Let_def)

lemma foldl_js_add_map:
  "foldl (\<lambda>acc seg. js_add acc (g seg)) a segs = foldl js_add a (map g segs)"
  by (induction segs arbitrary: a) simp_all

lemma foldl_js_add_Num:
  "foldl js_add (Num a) (map Num xs) = Num (a + sum_list xs)"
  by (induction xs arbitrary: a) (simp_all add: add.assoc)

lemma js_sum_Num: "js_sum (map Num xs) = Num (sum_list xs)"
  by (simp add: js_sum_def foldl_js_add_Num)

text \<open>
  What \<^verbatim>\<open>analyzeRouteCoverage\<close> keeps are the chunk results for which the test of line
  190 succeeds, in route order, and the statistics are computed from the kept segments
  alone.
\<close>

lemma analyzeRouteCoverage_keeps_covered:
  "segments (fst (analyzeRouteCoverage num_str this route f))
           = filter hasCoverage (chunkResults num_str route f 0 this) \<and>
         totalSegments (stats (fst (analyzeRouteCoverage num_str this route f)))
           = length (segments (fst (analyzeRouteCoverage num_str this route f))) \<and>
         averageCoverage (stats (fst (analyzeRouteCoverage num_str this route f)))
           = js_div (js_sum (map coverage (segments (fst (analyzeRouteCoverage num_str this route f)))))
               (Num (real (length (segments (fst (analyzeRouteCoverage num_str this route f)))))) \<and>
         (segments (fst (analyzeRouteCoverage num_str this route f)) = [] \<longrightarrow>
            averageCoverage (stats (fst (analyzeRouteCoverage num_str this route f))) = NaN) \<and>
         (\<forall>xs. xs \<noteq> [] \<longrightarrow>
            map coverage (segments (fst (analyzeRouteCoverage num_str this route f))) = map Num xs \<longrightarrow>
            averageCoverage (stats (fst (analyzeRouteCoverage num_str this route f)))
              = Num (sum_list xs / real (length xs))) \<and>
         map nearbyPoints (coverageDistribution (stats (fst (analyzeRouteCoverage num_str this route f))))
           = map (\<lambda>s. js_sum (obj_values (coverageDetails s)))
               (segments (fst (analyzeRouteCoverage num_str this route f))) \<and>
         map entry_coverage (coverageDistribution (stats (fst (analyzeRouteCoverage num_str this route f))))
           = map coverage (segments (fst (analyzeRouteCoverage num_str this route f)))"
proof -
  let ?a = "fst (analyzeRouteCoverage num_str this route f)"
  have seg: "segments ?a = fst (splitLoop num_str route f 0 [] this)"
    by (simp add: analyzeRouteCoverage_def case_prod_unfold Let_def)
  have st: "stats ?a = routeStats num_str (segments ?a)"
    by (simp add: analyzeRouteCoverage_def case_prod_unfold Let_def)
  from seg have 1: "segments ?a = filter hasCoverage (chunkResults num_str route f 0 this)"
    by (simp add: splitLoop_chunkResults)
  have 2: "totalSegments (stats ?a) = length (segments ?a)"
    by (simp add: st routeStats_def)
  have 3: "averageCoverage (stats ?a)
      = js_div (js_sum (map coverage (segments ?a))) (Num (real (length (segments ?a))))"
    by (simp add: st routeStats_def js_sum_def foldl_js_add_map [of coverage, symmetric])
  have 4: "segments ?a = [] \<longrightarrow> averageCoverage (stats ?a) = NaN"
    by (simp add: 3 js_sum_def)
  have 5: "\<forall>xs. xs \<noteq> [] \<longrightarrow> map coverage (segments ?a) = map Num xs \<longrightarrow>
      averageCoverage (stats ?a) = Num (sum_list xs / real (length xs))"
  proof (intro allI impI)
    fix xs :: "real list"
    assume ne: "xs \<noteq> []" and m: "map coverage (segments ?a) = map Num xs"
    from arg_cong [OF m, of length] have l: "length (segments ?a) = length xs"
      by simp
    have "averageCoverage (stats ?a) = js_div (js_sum (map Num xs)) (Num (real (length xs)))"
      by (simp only: 3 m l)
    also have "\<dots> = Num (sum_list xs / real (length xs))"
      using ne by (simp add: js_sum_Num)
    finally show "averageCoverage (stats ?a) = Num (sum_list xs / real (length xs))" .
  qed
  have 6: "map nearbyPoints (coverageDistribution (stats ?a))
      = map (\<lambda>s. js_sum (obj_values (coverageDetails s))) (segments ?a)"
    by (simp add: st routeStats_def comp_def)
  have 7: "map entry_coverage (coverageDistribution (stats ?a)) = map coverage (segments ?a)"
    by (simp add: st routeStats_def comp_def)
  from 1 2 3 4 5 6 7 show ?thesis by (intro conjI)
qed

lemma sample_analysis:
  "fst (analyzeRouteCoverage decimal_str (new_CoverageCalculator decimal_str [toronto5G])
         [here] noFilters)
   = \<lparr>segments =
        [\<lparr>path = [here], coverage = Num 1,
          coverageDetails = [(''5G'', Num 1), (''4G'', Num 0), (''3G'', Num 0), (''other'', Num 0)]\<rparr>],
      stats = \<lparr>totalSegments = 1, averageCoverage = Num 1,
        coverageDistribution =
          [\<lparr>entry_coverage = Num 1, color = ''hsl(120, 100%, 50%)'', nearbyPoints = Num 1\<rparr>]\<rparr>\<rparr>"
  by (simp add: analyzeRouteCoverage_def splitLoop.simps SEGMENT_LENGTH_def sample_result
      hasCoverage_def obj_values_def routeStats_def getCoverageColor_def js_sum_def
      decimal_str_def fraction_str_def digit_def Let_def)

lemma dropped_analysis:
  "fst (analyzeRouteCoverage decimal_str (new_CoverageCalculator decimal_str [halfKmNorth])
         [here] noFilters)
   = \<lparr>segments = [],
      stats = \<lparr>totalSegments = 0, averageCoverage = NaN, coverageDistribution = []\<rparr>\<rparr>"
proof -
  have "hasCoverage (fst (calculateSegmentCoverage decimal_str
          (new_CoverageCalculator decimal_str [halfKmNorth]) [here] noFilters DEFAULT_SEARCH_RADIUS)) = False"
    using far_result by (simp add: hasCoverage_def obj_values_def)
  then show ?thesis
    by (simp add: analyzeRouteCoverage_def splitLoop.simps SEGMENT_LENGTH_def
      routeStats_def Let_def case_prod_unfold)
qed

lemma testStatus_result:
  "fst (calculateSegmentCoverage decimal_str (new_CoverageCalculator decimal_str [testStatus])
          [here] noFilters DEFAULT_SEARCH_RADIUS)
     = \<lparr>path = [here], coverage = Num 0.1,
        coverageDetails = [(''5G'', Num 0), (''4G'', Num 0), (''3G'', Num 0), (''other'', Num 0),
                           (''Test Status'', NaN)]\<rparr>"
  by (simp add: calc_defs sample_defs Let_def)

lemma testStatus_passing:
  "passing decimal_str (spatialIndex (new_CoverageCalculator decimal_str [testStatus]))
     [here] noFilters DEFAULT_SEARCH_RADIUS = [(0, testStatus)]"
  by (simp add: passing_def qualifies_def calc_defs sample_defs Let_def)

text \<open>
  C4 says that the returned segments are exactly those whose breakdown has a non-zero
  count, so that only chunks without a qualifying nearby point are dropped. A chunk whose
  one qualifying point has the status of the test data of the repository has the score 0.1
  and a breakdown with the entry \<^verbatim>\<open>NaN\<close>, which is not zero; \<^verbatim>\<open>NaN > 0\<close> is false, so
  the test of line 190 fails and the segment is in neither the returned list nor the
  statistics.
\<close>

theorem unknown_status_segment_dropped:
  "passing decimal_str (spatialIndex (new_CoverageCalculator decimal_str [testStatus]))
     [here] noFilters DEFAULT_SEARCH_RADIUS = [(0, testStatus)] \<and>
   chunkResults decimal_str [here] noFilters 0 (new_CoverageCalculator decimal_str [testStatus])
     = [\<lparr>path = [here], coverage = Num 0.1,
         coverageDetails = [(''5G'', Num 0), (''4G'', Num 0), (''3G'', Num 0), (''other'', Num 0),
                            (''Test Status'', NaN)]\<rparr>] \<and>
   filter hasNonZeroCount
     (chunkResults decimal_str [here] noFilters 0 (new_CoverageCalculator decimal_str [testStatus]))
     = [\<lparr>path = [here], coverage = Num 0.1,
         coverageDetails = [(''5G'', Num 0), (''4G'', Num 0), (''3G'', Num 0), (''other'', Num 0),
                            (''Test Status'', NaN)]\<rparr>] \<and>
   fst (analyzeRouteCoverage decimal_str (new_CoverageCalculator decimal_str [testStatus])
         [here] noFilters)
     = \<lparr>segments = [],
        stats = \<lparr>totalSegments = 0, averageCoverage = NaN, coverageDistribution = []\<rparr>\<rparr>"
proof -
  have c: "chunkResults decimal_str [here] noFilters 0
       (new_CoverageCalculator decimal_str [testStatus])
     = [\<lparr>path = [here], coverage = Num 0.1,
         coverageDetails = [(''5G'', Num 0), (''4G'', Num 0), (''3G'', Num 0), (''other'', Num 0),
                            (''Test Status'', NaN)]\<rparr>]"
    using testStatus_result
    by (simp add: chunkResults.simps SEGMENT_LENGTH_def case_prod_unfold Let_def)
  have n: "filter hasNonZeroCount
     (chunkResults decimal_str [here] noFilters 0 (new_CoverageCalculator decimal_str [testStatus]))
     = [\<lparr>path = [here], coverage = Num 0.1,
         coverageDetails = [(''5G'', Num 0), (''4G'', Num 0), (''3G'', Num 0), (''other'', Num 0),
                            (''Test Status'', NaN)]\<rparr>]"
    by (simp add: c hasNonZeroCount_def obj_values_def)
  have "hasCoverage (fst (calculateSegmentCoverage decimal_str
          (new_CoverageCalculator decimal_str [testStatus]) [here] noFilters DEFAULT_SEARCH_RADIUS)) = False"
    by (simp add: testStatus_result hasCoverage_def obj_values_def)
  then have a: "fst (analyzeRouteCoverage decimal_str
         (new_CoverageCalculator decimal_str [testStatus]) [here] noFilters)
     = \<lparr>segments = [],
        stats = \<lparr>totalSegments = 0, averageCoverage = NaN, coverageDistribution = []\<rparr>\<rparr>"
    by (simp add: analyzeRouteCoverage_def splitLoop.simps SEGMENT_LENGTH_def
      routeStats_def Let_def case_prod_unfold)
  from testStatus_passing c n a show ?thesis by (intro conjI)
qed

section \<open>The scenarios of the specification\<close>

text \<open>
  The model gives the results that section 8 of the specification lists: one 5G point at
  the coordinates of the chunk has the breakdown \<open>5G: 1\<close> and the score 1
  (\<open>sample_result\<close> above); a 5G and a 4G point have the score 0.85; points excluded by
  an operator filter leave the score 0 and the breakdown all zero; a route of twelve
  points is cut into chunks of 5, 5 and 2 points.
\<close>

lemma two_points_score:
  "fst (calculateSegmentCoverage decimal_str
          (new_CoverageCalculator decimal_str [toronto5G, toronto4G])
          [here] noFilters DEFAULT_SEARCH_RADIUS)
     = \<lparr>path = [here], coverage = Num 0.85,
        coverageDetails = [(''5G'', Num 1), (''4G'', Num 1), (''3G'', Num 0), (''other'', Num 0)]\<rparr>"
  by (simp add: calc_defs sample_defs Let_def)

lemma excluded_by_operator:
  "fst (calculateSegmentCoverage decimal_str
          (new_CoverageCalculator decimal_str [toronto5G, toronto4G])
          [here] onlyRogers DEFAULT_SEARCH_RADIUS)
     = \<lparr>path = [here], coverage = Num 0,
        coverageDetails = [(''5G'', Num 0), (''4G'', Num 0), (''3G'', Num 0), (''other'', Num 0)]\<rparr>"
  by (simp add: calc_defs sample_defs Let_def)

lemma chunk_sizes:
  "map (length \<circ> path)
     (chunkResults decimal_str route12 noFilters 0 (new_CoverageCalculator decimal_str []))
     = [5, 5, 2]"
  by (simp add: route12_def chunkResults.simps SEGMENT_LENGTH_def upt_rec [of _ 12]
      calculateSegmentCoverage_def computeSegment_def Let_def case_prod_unfold
      new_CoverageCalculator_def key_defs noFilters_def decimal_str_def fraction_str_def digit_def)

end
